theory Spec2Isabelle
  imports Main "HOL-Library.Word"
begin

section \<open>Values shared by the store and the pull stage\<close>

text \<open>
  Go's \<open>uint64\<close> and \<open>uint32\<close> are words: \<open>+\<close> wraps, \<open>\<le>\<close> and \<open><\<close> compare
  unsigned. A \<open>[]byte\<close> is a list of bytes; Go's \<open>nil\<close> slice is the empty list.
  \<open>db.ID\<close> is a string (the hexadecimal form of an id); the driver's
  \<open>primitive.ObjectID\<close> is what the collections store and filter on.
\<close>

type_synonym uint64 = "64 word"
type_synonym uint32 = "32 word"
type_synonym bytes = "8 word list"
type_synonym db_id = string

datatype object_id = ObjectID string

datatype actor_id = ActorID string

text \<open>
  Every error the modelled functions return. The sentinel errors keep their Go names;
  \<open>fmt.Errorf("...: %w", e)\<close> is modelled by the sentinel it wraps.
\<close>

datatype error =
    ErrInvalidServerSeq
  | ErrClientNotFound
  | ErrDocumentNotFound
  | ErrConflictOnUpdate
  | ErrInvalidID
  | ErrInvalidKey
  | ErrInvalidActorID
  | ErrDocumentNeverAttached
  | ErrEncodeOperations
  | ErrEmptySlice
  | ErrDocument
  | ErrDriver string

subsection \<open>Checkpoint and ticket\<close>

text \<open>
  Modelled from the spec: packages \<open>checkpoint\<close> and \<open>time\<close> (pkg/document) are not under
  src. A checkpoint is the pair (serverSeq, clientSeq); \<open>NextServerSeq(s)\<close> returns a
  checkpoint with the given serverSeq and the same clientSeq; the initial checkpoint is
  (0, 0). A ticket is (lamport, delimiter, actorID); \<open>InitialTicket\<close> is the zero value;
  \<open>MaxDelimiter\<close> is the largest delimiter.
\<close>

record Checkpoint =
  cp_ServerSeq :: uint64
  cp_ClientSeq :: uint64

definition NextServerSeq :: "Checkpoint \<Rightarrow> uint64 \<Rightarrow> Checkpoint" where
  "NextServerSeq cp serverSeq = cp\<lparr>cp_ServerSeq := serverSeq\<rparr>"

definition Initial :: Checkpoint where
  "Initial = \<lparr>cp_ServerSeq = 0, cp_ClientSeq = 0\<rparr>"

record Ticket =
  tk_lamport :: uint64
  tk_delimiter :: uint32
  tk_actorID :: actor_id

definition MaxDelimiter :: uint32 where
  "MaxDelimiter = - 1"

definition InitialActorID :: actor_id where
  "InitialActorID = ActorID ''000000000000000000000000''"

definition NewTicket :: "uint64 \<Rightarrow> uint32 \<Rightarrow> actor_id \<Rightarrow> Ticket" where
  "NewTicket l d a = \<lparr>tk_lamport = l, tk_delimiter = d, tk_actorID = a\<rparr>"

definition InitialTicket :: Ticket where
  "InitialTicket = NewTicket 0 0 InitialActorID"

subsection \<open>Changes, packs and the db structs\<close>

text \<open>
  The operations of a change are opaque to the core. \<open>change.Change\<close> is read through
  its accessors (\<open>ID().ClientSeq()\<close>, \<open>ID().Lamport()\<close>, \<open>ID().Actor()\<close>,
  \<open>ServerSeq()\<close>, \<open>Message()\<close>, \<open>Operations()\<close>), one field each.
\<close>

datatype operation = Operation string

record Change =
  ch_ClientSeq :: uint32
  ch_Lamport :: uint64
  ch_Actor :: actor_id
  ch_ServerSeq :: uint64
  ch_Message :: string
  ch_Operations :: "operation list"

record Key =
  Collection :: string
  Document :: string

record Pack =
  pk_DocumentKey :: Key
  pk_Checkpoint :: Checkpoint
  pk_Changes :: "Change list"
  pk_Snapshot :: bytes

definition NewPack :: "Key \<Rightarrow> Checkpoint \<Rightarrow> Change list \<Rightarrow> bytes \<Rightarrow> Pack" where
  "NewPack k cp cs snapshot =
     \<lparr>pk_DocumentKey = k, pk_Checkpoint = cp, pk_Changes = cs, pk_Snapshot = snapshot\<rparr>"

datatype document_status = DocumentAttached | DocumentDetached

record ClientDocInfo =
  cd_Status :: document_status
  cd_ServerSeq :: uint64
  cd_ClientSeq :: uint32

record ClientInfo =
  ci_ID :: db_id
  ci_Key :: string
  ci_Status :: string
  ci_Documents :: "db_id \<rightharpoonup> ClientDocInfo"
  ci_UpdatedAt :: nat

record DocInfo =
  di_ID :: db_id
  di_Key :: string
  di_ServerSeq :: uint64

record ChangeInfo =
  cn_DocID :: db_id
  cn_ServerSeq :: uint64
  cn_ClientSeq :: uint32
  cn_Lamport :: uint64
  cn_Actor :: db_id
  cn_Message :: string
  cn_Operations :: "bytes list"

record SnapshotInfo =
  sn_DocID :: db_id
  sn_ServerSeq :: uint64
  sn_Snapshot :: bytes

record SyncedSeqInfo =
  ss_DocID :: db_id
  ss_ClientID :: db_id
  ss_ServerSeq :: uint64

text \<open>
  Modelled from the spec: \<open>ClientInfo.IsAttached\<close> (package db) is not under src. A
  client maps a document id to its attachment state, whose status is Attached or
  Detached; a document the client has no entry for gives an error.
\<close>

definition IsAttached :: "ClientInfo \<Rightarrow> db_id \<Rightarrow> error + bool" where
  "IsAttached clientInfo docID =
     (case ci_Documents clientInfo docID of
        None \<Rightarrow> Inl ErrDocumentNeverAttached
      | Some d \<Rightarrow> Inr (cd_Status d = DocumentAttached))"

section \<open>The MongoDB collections\<close>

text \<open>
  A collection is the list of its documents in natural (storage) order. The rows keep
  the field names of the persisted layout; ids are stored as \<open>ObjectID\<close>s.
\<close>

record client_row =
  cl_id :: object_id
  cl_key :: string
  cl_status :: string
  cl_documents :: "db_id \<rightharpoonup> ClientDocInfo"
  cl_updated_at :: nat

record document_row =
  dc_id :: object_id
  dc_key :: string
  dc_server_seq :: uint64
  dc_updated_at :: nat

record change_row =
  cr_doc_id :: object_id
  cr_server_seq :: uint64
  cr_actor :: object_id
  cr_client_seq :: uint32
  cr_lamport :: uint64
  cr_message :: string
  cr_operations :: "bytes list"

record snapshot_row =
  sr_doc_id :: object_id
  sr_server_seq :: uint64
  sr_snapshot :: bytes

record syncedseq_row =
  sq_doc_id :: object_id
  sq_client_id :: object_id
  sq_server_seq :: uint64

record store =
  clients :: "client_row list"
  documents :: "document_row list"
  changes :: "change_row list"
  snapshots :: "snapshot_row list"
  syncedseqs :: "syncedseq_row list"

subsection \<open>Collaborators that are not under src\<close>

text \<open>
  Every driver call of client.go that can return an error is a \<open>call\<close>; the environment
  says which of them fail (a transport or decoding error of the driver). A failing
  call leaves its collection as it was.
\<close>

datatype call =
    Clients_FindOne | Clients_Decode | Clients_FindOneAndUpdate
  | Changes_BulkWrite | Documents_UpdateOne
  | Changes_Find | Changes_All | Changes_CursorErr | Changes_FindOne | Changes_Decode
  | SyncedSeqs_UpdateOne | SyncedSeqs_DeleteOne | SyncedSeqs_FindOne | SyncedSeqs_Decode
  | Snapshots_FindOne | Snapshots_Decode

text \<open>
  The functions of the repository and its libraries that the modelled code calls and
  that are not under src are parameters: the id codecs of package mongo
  (\<open>encodeID\<close>, \<open>encodeActorID\<close>, and the registry's decoder of an \<open>ObjectID\<close> into a
  \<open>db.ID\<close>), \<open>time.ActorIDFromHex\<close>, \<open>db.EncodeOperations\<close>, \<open>key.FromBSONKey\<close>
  (behind \<open>DocInfo.GetKey\<close>), \<open>ChangeInfo.ToChange\<close>, and the CRDT document
  (\<open>NewInternalDocumentFromSnapshot\<close>, \<open>ApplyChangePack\<close>, and
  \<open>converter.ObjectToBytes(doc.RootObject())\<close>). \<open>None\<close> is the call's error return.
  \<open>partialClientInfo\<close> is what a failed \<open>Decode\<close> leaves in the \<open>ClientInfo\<close> it was
  filling; \<open>now\<close> is the reading of \<open>gotime.Now()\<close>.
\<close>

record 'doc env =
  encodeID :: "db_id \<Rightarrow> object_id option"
  decodeID :: "object_id \<Rightarrow> db_id"
  encodeActorID :: "actor_id \<Rightarrow> object_id"
  ActorIDFromHex :: "string \<Rightarrow> actor_id option"
  EncodeOperations :: "operation list \<Rightarrow> bytes list option"
  FromBSONKey :: "string \<Rightarrow> Key option"
  ToChange :: "ChangeInfo \<Rightarrow> Change option"
  NewInternalDocumentFromSnapshot :: "string \<Rightarrow> string \<Rightarrow> uint64 \<Rightarrow> bytes \<Rightarrow> 'doc option"
  ApplyChangePack :: "'doc \<Rightarrow> Pack \<Rightarrow> 'doc option"
  RootObjectToBytes :: "'doc \<Rightarrow> bytes option"
  partialClientInfo :: "client_row \<Rightarrow> ClientInfo"
  fault :: "call \<Rightarrow> string option"
  now :: nat

text \<open>\<open>DocInfo.GetKey\<close>: \<open>key.FromBSONKey(info.Key)\<close>.\<close>

definition GetKey :: "'doc env \<Rightarrow> DocInfo \<Rightarrow> error + Key" where
  "GetKey env docInfo =
     (case FromBSONKey env (di_Key docInfo) of
        None \<Rightarrow> Inl ErrInvalidKey
      | Some k \<Rightarrow> Inr k)"

subsection \<open>Driver operations on a collection\<close>

text \<open>
  \<open>FindOne\<close> answers with the first document that matches, in the order asked for;
  \<open>SingleResult.Err()\<close> is \<open>mongo.ErrNoDocuments\<close> when none does.
\<close>

datatype 'r single_result = NoDocuments | Failed string | Found 'r

definition FindOne :: "string option \<Rightarrow> ('r \<Rightarrow> bool) \<Rightarrow> 'r list \<Rightarrow> 'r single_result" where
  "FindOne flt p rows =
     (case flt of
        Some m \<Rightarrow> Failed m
      | None \<Rightarrow> (case find p rows of None \<Rightarrow> NoDocuments | Some r \<Rightarrow> Found r))"

text \<open>
  With a sort: \<open>pick earlier r rs\<close> is the row of \<open>r # rs\<close> that no other row sorts
  strictly before, the first such in natural order.
\<close>

fun pick :: "('r \<Rightarrow> 'r \<Rightarrow> bool) \<Rightarrow> 'r \<Rightarrow> 'r list \<Rightarrow> 'r" where
  "pick earlier best [] = best"
| "pick earlier best (r # rs) = pick earlier (if earlier r best then r else best) rs"

definition FindOneSorted ::
  "string option \<Rightarrow> ('r \<Rightarrow> bool) \<Rightarrow> ('r \<Rightarrow> 'r \<Rightarrow> bool) \<Rightarrow> 'r list \<Rightarrow> 'r single_result" where
  "FindOneSorted flt p earlier rows =
     (case flt of
        Some m \<Rightarrow> Failed m
      | None \<Rightarrow> (case filter p rows of [] \<Rightarrow> NoDocuments | r # rs \<Rightarrow> Found (pick earlier r rs)))"

text \<open>
  \<open>UpdateOne\<close> and \<open>FindOneAndUpdate\<close> change the first document that matches.
  \<open>update_first\<close> is \<open>None\<close> when no document matches (\<open>MatchedCount == 0\<close>).
\<close>

fun update_first :: "('r \<Rightarrow> bool) \<Rightarrow> ('r \<Rightarrow> 'r) \<Rightarrow> 'r list \<Rightarrow> 'r list option" where
  "update_first p f [] = None"
| "update_first p f (r # rs) =
     (if p r then Some (f r # rs) else map_option ((#) r) (update_first p f rs))"

text \<open>With \<open>SetUpsert(true)\<close>, a miss inserts the document built from the filter and the update.\<close>

definition upsert_one :: "('r \<Rightarrow> bool) \<Rightarrow> ('r \<Rightarrow> 'r) \<Rightarrow> 'r \<Rightarrow> 'r list \<Rightarrow> 'r list" where
  "upsert_one p f new rows =
     (case update_first p f rows of None \<Rightarrow> rows @ [new] | Some rows' \<Rightarrow> rows')"

text \<open>\<open>DeleteOne\<close> removes the first document that matches.\<close>

fun delete_first :: "('r \<Rightarrow> bool) \<Rightarrow> 'r list \<Rightarrow> 'r list" where
  "delete_first p [] = []"
| "delete_first p (r # rs) = (if p r then rs else r # delete_first p rs)"

section \<open>The store client (yorkie/backend/db/mongo/client.go)\<close>

text \<open>
  A function of \<open>Client\<close> that writes takes the store and returns the store it leaves,
  with its error (if any); one that only reads returns its error or its value.
\<close>

subsection \<open>Decoding a row into its db struct\<close>

definition decode_ClientInfo :: "'doc env \<Rightarrow> client_row \<Rightarrow> ClientInfo" where
  "decode_ClientInfo env r =
     \<lparr>ci_ID = decodeID env (cl_id r), ci_Key = cl_key r, ci_Status = cl_status r,
      ci_Documents = cl_documents r, ci_UpdatedAt = cl_updated_at r\<rparr>"

definition zero_ClientInfo :: ClientInfo where
  "zero_ClientInfo =
     \<lparr>ci_ID = [], ci_Key = [], ci_Status = [], ci_Documents = Map.empty, ci_UpdatedAt = 0\<rparr>"

definition decode_ChangeInfo :: "'doc env \<Rightarrow> change_row \<Rightarrow> ChangeInfo" where
  "decode_ChangeInfo env r =
     \<lparr>cn_DocID = decodeID env (cr_doc_id r), cn_ServerSeq = cr_server_seq r,
      cn_ClientSeq = cr_client_seq r, cn_Lamport = cr_lamport r,
      cn_Actor = decodeID env (cr_actor r), cn_Message = cr_message r,
      cn_Operations = cr_operations r\<rparr>"

definition decode_SnapshotInfo :: "'doc env \<Rightarrow> snapshot_row \<Rightarrow> SnapshotInfo" where
  "decode_SnapshotInfo env r =
     \<lparr>sn_DocID = decodeID env (sr_doc_id r), sn_ServerSeq = sr_server_seq r,
      sn_Snapshot = sr_snapshot r\<rparr>"

definition zero_SnapshotInfo :: SnapshotInfo where
  "zero_SnapshotInfo = \<lparr>sn_DocID = [], sn_ServerSeq = 0, sn_Snapshot = []\<rparr>"

definition decode_SyncedSeqInfo :: "'doc env \<Rightarrow> syncedseq_row \<Rightarrow> SyncedSeqInfo" where
  "decode_SyncedSeqInfo env r =
     \<lparr>ss_DocID = decodeID env (sq_doc_id r), ss_ClientID = decodeID env (sq_client_id r),
      ss_ServerSeq = sq_server_seq r\<rparr>"

subsection \<open>FindClientInfoByID\<close>

text \<open>
  \<open>result.Decode(&clientInfo)\<close> returns the error of the find itself when there is
  one, and the decoding error otherwise. Only \<open>mongo.ErrNoDocuments\<close> is turned into a
  return; after any other error the function falls through to
  \<open>return &clientInfo, nil\<close>.
\<close>

definition FindClientInfoByID :: "'doc env \<Rightarrow> store \<Rightarrow> db_id \<Rightarrow> error + ClientInfo" where
  "FindClientInfoByID env db clientID =
     (case encodeID env clientID of
        None \<Rightarrow> Inl ErrInvalidID
      | Some encodedClientID \<Rightarrow>
          (case FindOne (fault env Clients_FindOne) (\<lambda>r. cl_id r = encodedClientID) (clients db) of
             NoDocuments \<Rightarrow> Inl ErrClientNotFound
           | Failed m \<Rightarrow> Inr zero_ClientInfo
           | Found r \<Rightarrow>
               (case fault env Clients_Decode of
                  Some m \<Rightarrow> Inr (partialClientInfo env r)
                | None \<Rightarrow> Inr (decode_ClientInfo env r))))"

subsection \<open>UpdateClientInfoAfterPushPull\<close>

text \<open>
  The two updaters, as functions on the client's row. \<open>$max\<close> writes the larger of the
  stored and the given value, and the given value where the field is absent; \<open>$set\<close>
  writes the given value.
\<close>

definition max_updater :: "db_id \<Rightarrow> ClientDocInfo \<Rightarrow> nat \<Rightarrow> client_row \<Rightarrow> client_row" where
  "max_updater docID clientDocInfo updatedAt r =
     r\<lparr>cl_documents := (cl_documents r)(docID \<mapsto>
          (case cl_documents r docID of
             None \<Rightarrow>
               \<lparr>cd_Status = cd_Status clientDocInfo,
                cd_ServerSeq = cd_ServerSeq clientDocInfo,
                cd_ClientSeq = cd_ClientSeq clientDocInfo\<rparr>
           | Some stored \<Rightarrow>
               \<lparr>cd_Status = cd_Status clientDocInfo,
                cd_ServerSeq = max (cd_ServerSeq stored) (cd_ServerSeq clientDocInfo),
                cd_ClientSeq = max (cd_ClientSeq stored) (cd_ClientSeq clientDocInfo)\<rparr>)),
       cl_updated_at := updatedAt\<rparr>"

definition set_updater :: "db_id \<Rightarrow> ClientDocInfo \<Rightarrow> nat \<Rightarrow> client_row \<Rightarrow> client_row" where
  "set_updater docID clientDocInfo updatedAt r =
     r\<lparr>cl_documents := (cl_documents r)(docID \<mapsto>
          \<lparr>cd_Status = cd_Status clientDocInfo, cd_ServerSeq = 0, cd_ClientSeq = 0\<rparr>),
       cl_updated_at := updatedAt\<rparr>"

text \<open>
  A client with no entry for the document: \<open>IsAttached\<close> fails, after the updater was
  built from the missing entry; no update is sent.
\<close>

definition UpdateClientInfoAfterPushPull ::
  "'doc env \<Rightarrow> store \<Rightarrow> ClientInfo \<Rightarrow> DocInfo \<Rightarrow> store \<times> error option" where
  "UpdateClientInfoAfterPushPull env db clientInfo docInfo =
     (case ci_Documents clientInfo (di_ID docInfo) of
        None \<Rightarrow> (db, Some ErrDocumentNeverAttached)
      | Some clientDocInfo \<Rightarrow>
          (case IsAttached clientInfo (di_ID docInfo) of
             Inl e \<Rightarrow> (db, Some e)
           | Inr attached \<Rightarrow>
               (let updater =
                  (if \<not> attached
                   then set_updater (di_ID docInfo) clientDocInfo (ci_UpdatedAt clientInfo)
                   else max_updater (di_ID docInfo) clientDocInfo (ci_UpdatedAt clientInfo))
                in case fault env Clients_FindOneAndUpdate of
                     Some m \<Rightarrow> (db, Some (ErrDriver m))
                   | None \<Rightarrow>
                       (case update_first (\<lambda>r. cl_key r = ci_Key clientInfo) updater (clients db) of
                          None \<Rightarrow> (db, Some ErrClientNotFound)
                        | Some rows \<Rightarrow> (db\<lparr>clients := rows\<rparr>, None)))))"

subsection \<open>StoreChangeInfos\<close>

text \<open>
  One write model per pushed change: an upsert whose filter is (doc_id, server_seq)
  and whose \<open>$set\<close> carries the other five fields. A model is kept as the row it asks for.
\<close>

fun write_models :: "'doc env \<Rightarrow> object_id \<Rightarrow> Change list \<Rightarrow> error + change_row list" where
  "write_models env encodedDocID [] = Inr []"
| "write_models env encodedDocID (cn # cns) =
     (case EncodeOperations env (ch_Operations cn) of
        None \<Rightarrow> Inl ErrEncodeOperations
      | Some encodedOperations \<Rightarrow>
          (case write_models env encodedDocID cns of
             Inl e \<Rightarrow> Inl e
           | Inr models \<Rightarrow>
               Inr (\<lparr>cr_doc_id = encodedDocID, cr_server_seq = ch_ServerSeq cn,
                     cr_actor = encodeActorID env (ch_Actor cn),
                     cr_client_seq = ch_ClientSeq cn, cr_lamport = ch_Lamport cn,
                     cr_message = ch_Message cn,
                     cr_operations = encodedOperations\<rparr> # models)))"

definition same_change_key :: "change_row \<Rightarrow> change_row \<Rightarrow> bool" where
  "same_change_key m r = (cr_doc_id r = cr_doc_id m \<and> cr_server_seq r = cr_server_seq m)"

definition set_change_fields :: "change_row \<Rightarrow> change_row \<Rightarrow> change_row" where
  "set_change_fields m r =
     r\<lparr>cr_actor := cr_actor m, cr_client_seq := cr_client_seq m, cr_lamport := cr_lamport m,
       cr_message := cr_message m, cr_operations := cr_operations m\<rparr>"

definition apply_model :: "change_row \<Rightarrow> change_row list \<Rightarrow> change_row list" where
  "apply_model m rows = upsert_one (same_change_key m) (set_change_fields m) m rows"

text \<open>
  \<open>BulkWrite\<close> with \<open>SetOrdered(true)\<close> applies the models in order. The driver refuses
  an empty list of models (\<open>mongo.ErrEmptySlice\<close>).
\<close>

definition BulkWrite ::
  "string option \<Rightarrow> change_row list \<Rightarrow> change_row list \<Rightarrow> error + change_row list" where
  "BulkWrite flt models rows =
     (if models = [] then Inl ErrEmptySlice
      else case flt of
             Some m \<Rightarrow> Inl (ErrDriver m)
           | None \<Rightarrow> Inr (fold apply_model models rows))"

definition StoreChangeInfos ::
  "'doc env \<Rightarrow> store \<Rightarrow> DocInfo \<Rightarrow> uint64 \<Rightarrow> Change list \<Rightarrow> store \<times> error option" where
  "StoreChangeInfos env db docInfo initialServerSeq cns =
     (case encodeID env (di_ID docInfo) of
        None \<Rightarrow> (db, Some ErrInvalidID)
      | Some encodedDocID \<Rightarrow>
          (case write_models env encodedDocID cns of
             Inl e \<Rightarrow> (db, Some e)
           | Inr models \<Rightarrow>
               (case BulkWrite (fault env Changes_BulkWrite) models (changes db) of
                  Inl e \<Rightarrow> (db, Some e)
                | Inr rows \<Rightarrow>
                    (case fault env Documents_UpdateOne of
                       Some m \<Rightarrow> (db\<lparr>changes := rows\<rparr>, Some (ErrDriver m))
                     | None \<Rightarrow>
                         (case update_first
                                 (\<lambda>r. dc_id r = encodedDocID \<and> dc_server_seq r = initialServerSeq)
                                 (\<lambda>r. r\<lparr>dc_server_seq := di_ServerSeq docInfo,
                                         dc_updated_at := now env\<rparr>)
                                 (documents db) of
                            None \<Rightarrow> (db\<lparr>changes := rows\<rparr>, Some ErrConflictOnUpdate)
                          | Some docs \<Rightarrow> (db\<lparr>changes := rows, documents := docs\<rparr>, None))))))"

subsection \<open>FindChangeInfosBetweenServerSeqs and FindChangesBetweenServerSeqs\<close>

text \<open>
  \<open>Find\<close> is called with \<open>options.Find()\<close>, which asks for no sort: the cursor yields
  the matching rows in natural order. When \<open>cursor.All\<close> fails the function returns
  \<open>nil, cursor.Err()\<close>, which is the cursor's own error and may be \<open>nil\<close>.
\<close>

definition FindChangeInfosBetweenServerSeqs ::
  "'doc env \<Rightarrow> store \<Rightarrow> db_id \<Rightarrow> uint64 \<Rightarrow> uint64 \<Rightarrow> error + ChangeInfo list" where
  "FindChangeInfosBetweenServerSeqs env db docID from to =
     (case encodeID env docID of
        None \<Rightarrow> Inl ErrInvalidID
      | Some encodedDocID \<Rightarrow>
          (case fault env Changes_Find of
             Some m \<Rightarrow> Inl (ErrDriver m)
           | None \<Rightarrow>
               (case fault env Changes_All of
                  Some m \<Rightarrow>
                    (case fault env Changes_CursorErr of
                       Some m' \<Rightarrow> Inl (ErrDriver m')
                     | None \<Rightarrow> Inr [])
                | None \<Rightarrow>
                    Inr (map (decode_ChangeInfo env)
                          (filter (\<lambda>r. cr_doc_id r = encodedDocID \<and>
                                        from \<le> cr_server_seq r \<and> cr_server_seq r \<le> to)
                             (changes db))))))"

fun to_changes :: "'doc env \<Rightarrow> ChangeInfo list \<Rightarrow> error + Change list" where
  "to_changes env [] = Inr []"
| "to_changes env (info # infos) =
     (case ToChange env info of
        None \<Rightarrow> Inl ErrDocument
      | Some c \<Rightarrow>
          (case to_changes env infos of
             Inl e \<Rightarrow> Inl e
           | Inr cs \<Rightarrow> Inr (c # cs)))"

definition FindChangesBetweenServerSeqs ::
  "'doc env \<Rightarrow> store \<Rightarrow> db_id \<Rightarrow> uint64 \<Rightarrow> uint64 \<Rightarrow> error + Change list" where
  "FindChangesBetweenServerSeqs env db docID from to =
     (case FindChangeInfosBetweenServerSeqs env db docID from to of
        Inl e \<Rightarrow> Inl e
      | Inr infos \<Rightarrow> to_changes env infos)"

subsection \<open>findTicketByServerSeq and UpdateAndFindMinSyncedTicket\<close>

definition findTicketByServerSeq :: "'doc env \<Rightarrow> store \<Rightarrow> db_id \<Rightarrow> uint64 \<Rightarrow> error + Ticket" where
  "findTicketByServerSeq env db docID serverSeq =
     (case encodeID env docID of
        None \<Rightarrow> Inl ErrInvalidID
      | Some encodedDocID \<Rightarrow>
          (case FindOne (fault env Changes_FindOne)
                  (\<lambda>r. cr_doc_id r = encodedDocID \<and> cr_server_seq r = serverSeq) (changes db) of
             NoDocuments \<Rightarrow> Inl ErrDocumentNotFound
           | Failed m \<Rightarrow> Inl (ErrDriver m)
           | Found r \<Rightarrow>
               (case fault env Changes_Decode of
                  Some m \<Rightarrow> Inl (ErrDriver m)
                | None \<Rightarrow>
                    (let changeInfo = decode_ChangeInfo env r
                     in case ActorIDFromHex env (cn_Actor changeInfo) of
                          None \<Rightarrow> Inl ErrInvalidActorID
                        | Some actorID \<Rightarrow>
                            Inr (NewTicket (cn_Lamport changeInfo) MaxDelimiter actorID)))))"

definition same_synced_key :: "object_id \<Rightarrow> object_id \<Rightarrow> syncedseq_row \<Rightarrow> bool" where
  "same_synced_key encodedDocID encodedClientID r =
     (sq_doc_id r = encodedDocID \<and> sq_client_id r = encodedClientID)"

text \<open>
  Step 02 sorts by \<open>server_seq: 1\<close> (ascending): the row found is one with the least
  server_seq among the document's rows.
\<close>

definition UpdateAndFindMinSyncedTicket ::
  "'doc env \<Rightarrow> store \<Rightarrow> ClientInfo \<Rightarrow> db_id \<Rightarrow> uint64 \<Rightarrow> store \<times> (error + Ticket)" where
  "UpdateAndFindMinSyncedTicket env db clientInfo docID serverSeq =
     (case encodeID env docID of
        None \<Rightarrow> (db, Inl ErrInvalidID)
      | Some encodedDocID \<Rightarrow>
     (case encodeID env (ci_ID clientInfo) of
        None \<Rightarrow> (db, Inl ErrInvalidID)
      | Some encodedClientID \<Rightarrow>
     (case IsAttached clientInfo docID of
        Inl e \<Rightarrow> (db, Inl e)
      | Inr isAttached \<Rightarrow>
     (case (if isAttached
            then (case fault env SyncedSeqs_UpdateOne of
                    Some m \<Rightarrow> Inl (ErrDriver m)
                  | None \<Rightarrow>
                      Inr (upsert_one (same_synced_key encodedDocID encodedClientID)
                             (\<lambda>r. r\<lparr>sq_server_seq := serverSeq\<rparr>)
                             \<lparr>sq_doc_id = encodedDocID, sq_client_id = encodedClientID,
                              sq_server_seq = serverSeq\<rparr>
                             (syncedseqs db)))
            else (case fault env SyncedSeqs_DeleteOne of
                    Some m \<Rightarrow> Inl (ErrDriver m)
                  | None \<Rightarrow>
                      Inr (delete_first (same_synced_key encodedDocID encodedClientID)
                             (syncedseqs db)))) of
        Inl e \<Rightarrow> (db, Inl e)
      | Inr rows \<Rightarrow>
          (let db' = db\<lparr>syncedseqs := rows\<rparr>
           in case FindOneSorted (fault env SyncedSeqs_FindOne)
                     (\<lambda>r. sq_doc_id r = encodedDocID)
                     (\<lambda>a b. sq_server_seq a < sq_server_seq b) rows of
                NoDocuments \<Rightarrow> (db', Inr InitialTicket)
              | Failed m \<Rightarrow> (db', Inl (ErrDriver m))
              | Found r \<Rightarrow>
                  (case fault env SyncedSeqs_Decode of
                     Some m \<Rightarrow> (db', Inl (ErrDriver m))
                   | None \<Rightarrow>
                       (let syncedSeqInfo = decode_SyncedSeqInfo env r
                        in if ss_ServerSeq syncedSeqInfo = 0 then (db', Inr InitialTicket)
                           else (db', findTicketByServerSeq env db' docID
                                        (ss_ServerSeq syncedSeqInfo)))))))))"

subsection \<open>FindLastSnapshotInfo\<close>

text \<open>
  The sort is \<open>server_seq: -1\<close> (descending) and the filter is the document id alone.
  With no snapshot of the document the zero \<open>SnapshotInfo\<close> is returned, with no error.
\<close>

definition FindLastSnapshotInfo :: "'doc env \<Rightarrow> store \<Rightarrow> db_id \<Rightarrow> error + SnapshotInfo" where
  "FindLastSnapshotInfo env db docID =
     (case encodeID env docID of
        None \<Rightarrow> Inl ErrInvalidID
      | Some encodedDocID \<Rightarrow>
          (case FindOneSorted (fault env Snapshots_FindOne)
                  (\<lambda>r. sr_doc_id r = encodedDocID)
                  (\<lambda>a b. sr_server_seq b < sr_server_seq a) (snapshots db) of
             NoDocuments \<Rightarrow> Inr zero_SnapshotInfo
           | Failed m \<Rightarrow> Inl (ErrDriver m)
           | Found r \<Rightarrow>
               (case fault env Snapshots_Decode of
                  Some m \<Rightarrow> Inl (ErrDriver m)
                | None \<Rightarrow> Inr (decode_SnapshotInfo env r))))"

section \<open>The pull stage (yorkie/packs/pull.go)\<close>

record ServerPack =
  sp_DocumentKey :: Key
  sp_Checkpoint :: Checkpoint
  sp_ChangeInfos :: "ChangeInfo list"
  sp_Snapshot :: bytes
  sp_MinSyncedTicket :: "Ticket option"

definition NewServerPack :: "Key \<Rightarrow> Checkpoint \<Rightarrow> ChangeInfo list \<Rightarrow> bytes \<Rightarrow> ServerPack" where
  "NewServerPack k cp changeInfos snapshot =
     \<lparr>sp_DocumentKey = k, sp_Checkpoint = cp, sp_ChangeInfos = changeInfos,
      sp_Snapshot = snapshot, sp_MinSyncedTicket = None\<rparr>"

text \<open>\<open>backend.Backend\<close>: the configuration's \<open>SnapshotThreshold\<close> and the store.\<close>

record Backend =
  SnapshotThreshold :: uint64
  DB :: store

text \<open>The log lines of the three functions have no effect on the result and are left out.\<close>

definition pullChangeInfos ::
  "'doc env \<Rightarrow> Backend \<Rightarrow> ClientInfo \<Rightarrow> DocInfo \<Rightarrow> Pack \<Rightarrow> Checkpoint \<Rightarrow> uint64
     \<Rightarrow> error + Checkpoint \<times> ChangeInfo list" where
  "pullChangeInfos env be clientInfo docInfo requestPack pushedCP initialServerSeq =
     (case FindChangeInfosBetweenServerSeqs env (DB be) (di_ID docInfo)
             (cp_ServerSeq (pk_Checkpoint requestPack) + 1) initialServerSeq of
        Inl e \<Rightarrow> Inl e
      | Inr pulledChanges \<Rightarrow> Inr (NextServerSeq pushedCP (di_ServerSeq docInfo), pulledChanges))"

definition pullSnapshot ::
  "'doc env \<Rightarrow> Backend \<Rightarrow> ClientInfo \<Rightarrow> DocInfo \<Rightarrow> Pack \<Rightarrow> Checkpoint \<Rightarrow> uint64
     \<Rightarrow> error + Checkpoint \<times> bytes" where
  "pullSnapshot env be clientInfo docInfo pack pushedCP initialServerSeq =
     (case FindLastSnapshotInfo env (DB be) (di_ID docInfo) of
        Inl e \<Rightarrow> Inl e
      | Inr snapshotInfo \<Rightarrow>
          if sn_ServerSeq snapshotInfo \<ge> initialServerSeq
          then Inr (NextServerSeq pushedCP (di_ServerSeq docInfo), sn_Snapshot snapshotInfo)
          else
            (case GetKey env docInfo of
               Inl e \<Rightarrow> Inl e
             | Inr docKey \<Rightarrow>
            (case NewInternalDocumentFromSnapshot env (Collection docKey) (Document docKey)
                    (sn_ServerSeq snapshotInfo) (sn_Snapshot snapshotInfo) of
               None \<Rightarrow> Inl ErrDocument
             | Some doc \<Rightarrow>
            (case FindChangesBetweenServerSeqs env (DB be) (di_ID docInfo)
                    (sn_ServerSeq snapshotInfo + 1) initialServerSeq of
               Inl e \<Rightarrow> Inl e
             | Inr cs \<Rightarrow>
            (case ApplyChangePack env doc
                    (NewPack docKey (NextServerSeq Initial (di_ServerSeq docInfo)) cs []) of
               None \<Rightarrow> Inl ErrDocument
             | Some doc' \<Rightarrow>
            (case RootObjectToBytes env doc' of
               None \<Rightarrow> Inl ErrDocument
             | Some snapshot \<Rightarrow>
                 Inr (NextServerSeq pushedCP (di_ServerSeq docInfo), snapshot)))))))"

definition pullPack ::
  "'doc env \<Rightarrow> Backend \<Rightarrow> ClientInfo \<Rightarrow> DocInfo \<Rightarrow> Pack \<Rightarrow> Checkpoint \<Rightarrow> uint64
     \<Rightarrow> error + ServerPack" where
  "pullPack env be clientInfo docInfo requestPack pushedCP initialServerSeq =
     (case GetKey env docInfo of
        Inl e \<Rightarrow> Inl e
      | Inr docKey \<Rightarrow>
          if initialServerSeq < cp_ServerSeq (pk_Checkpoint requestPack)
          then Inl ErrInvalidServerSeq
          else if initialServerSeq - cp_ServerSeq (pk_Checkpoint requestPack)
                    < SnapshotThreshold be
          then (case pullChangeInfos env be clientInfo docInfo requestPack pushedCP
                       initialServerSeq of
                  Inl e \<Rightarrow> Inl e
                | Inr (pulledCP, pulledChanges) \<Rightarrow>
                    Inr (NewServerPack docKey pulledCP pulledChanges []))
          else (case pullSnapshot env be clientInfo docInfo requestPack pushedCP
                       initialServerSeq of
                  Inl e \<Rightarrow> Inl e
                | Inr (pulledCP, snapshot) \<Rightarrow>
                    Inr (NewServerPack docKey pulledCP [] snapshot)))"

section \<open>The in-memory locker (yorkie/backend/sync/memory/locker.go)\<close>

text \<open>
  \<open>locker.Locker\<close> of github.com/moby/locker is a table of named mutexes. The model
  keeps, for every name, whether the mutex is held. A call that has to wait for another
  session does not return in the caller's own steps: its outcome is \<open>Blocks\<close>.
\<close>

datatype 'a outcome = Returns 'a | Blocks

type_synonym locker = "string \<Rightarrow> bool"

definition locks_Lock :: "locker \<Rightarrow> string \<Rightarrow> locker outcome" where
  "locks_Lock l name = (if l name then Blocks else Returns (l(name := True)))"

definition locks_Unlock :: "locker \<Rightarrow> string \<Rightarrow> error + locker" where
  "locks_Unlock l name = (if l name then Inr (l(name := False)) else Inl (ErrDriver ''no such lock''))"

record internalLocker =
  key :: string
  locks :: locker

text \<open>\<open>Lock\<close>: \<open>il.locks.Lock(il.key); return nil\<close>.\<close>

definition Lock :: "internalLocker \<Rightarrow> (error option \<times> internalLocker) outcome" where
  "Lock il =
     (case locks_Lock (locks il) (key il) of
        Blocks \<Rightarrow> Blocks
      | Returns l \<Rightarrow> Returns (None, il\<lparr>locks := l\<rparr>))"

text \<open>
  \<open>TryLock\<close> has the body of \<open>Lock\<close>: \<open>il.locks.Lock(il.key); return nil\<close>, under the
  comment "TODO(hackerwins): We need to replace Lock with TryLock."
\<close>

definition TryLock :: "internalLocker \<Rightarrow> (error option \<times> internalLocker) outcome" where
  "TryLock il =
     (case locks_Lock (locks il) (key il) of
        Blocks \<Rightarrow> Blocks
      | Returns l \<Rightarrow> Returns (None, il\<lparr>locks := l\<rparr>))"

definition Unlock :: "internalLocker \<Rightarrow> error option \<times> internalLocker" where
  "Unlock il =
     (case locks_Unlock (locks il) (key il) of
        Inl e \<Rightarrow> (Some e, il)
      | Inr l \<Rightarrow> (None, il\<lparr>locks := l\<rparr>))"

section \<open>Vocabulary of the properties\<close>

text \<open>
  The persisted changes of a document with serverSeq in the half-open range (lo, hi],
  in natural order.
\<close>

definition changes_in :: "store \<Rightarrow> object_id \<Rightarrow> uint64 \<Rightarrow> uint64 \<Rightarrow> change_row list" where
  "changes_in db encodedDocID lo hi =
     filter (\<lambda>r. cr_doc_id r = encodedDocID \<and> lo < cr_server_seq r \<and> cr_server_seq r \<le> hi)
       (changes db)"

text \<open>
  The persisted (server_seq, client_seq) of a client, found by its key, for a document.
\<close>

definition persisted_seqs :: "store \<Rightarrow> string \<Rightarrow> db_id \<Rightarrow> (uint64 \<times> uint32) option" where
  "persisted_seqs db k docID =
     (case find (\<lambda>r. cl_key r = k) (clients db) of
        None \<Rightarrow> None
      | Some r \<Rightarrow> map_option (\<lambda>d. (cd_ServerSeq d, cd_ClientSeq d)) (cl_documents r docID))"

text \<open>The store after successive calls of \<open>UpdateClientInfoAfterPushPull\<close>.\<close>

fun after_calls :: "'doc env \<Rightarrow> store \<Rightarrow> (ClientInfo \<times> DocInfo) list \<Rightarrow> store" where
  "after_calls env db [] = db"
| "after_calls env db ((clientInfo, docInfo) # calls) =
     after_calls env (fst (UpdateClientInfoAfterPushPull env db clientInfo docInfo)) calls"

text \<open>The server_seq of the SyncedSeq row of a (document, client) pair, when there is one.\<close>

definition synced_seq :: "store \<Rightarrow> object_id \<Rightarrow> object_id \<Rightarrow> uint64 option" where
  "synced_seq db encodedDocID encodedClientID =
     map_option sq_server_seq
       (find (same_synced_key encodedDocID encodedClientID) (syncedseqs db))"

text \<open>The minimum server_seq across the SyncedSeq rows of a document, when it has rows.\<close>

definition min_synced_seq :: "store \<Rightarrow> object_id \<Rightarrow> uint64 option" where
  "min_synced_seq db encodedDocID =
     (case filter (\<lambda>r. sq_doc_id r = encodedDocID) (syncedseqs db) of
        [] \<Rightarrow> None
      | r # rs \<Rightarrow> Some (Min (set (map sq_server_seq (r # rs)))))"

text \<open>
  The row a pushed change is persisted as: keyed by (doc_id, server_seq), with the
  change's actor, client_seq, lamport, message and encoded operations.
\<close>

definition change_row_of :: "'doc env \<Rightarrow> object_id \<Rightarrow> Change \<Rightarrow> bytes list \<Rightarrow> change_row" where
  "change_row_of env encodedDocID cn encodedOperations =
     \<lparr>cr_doc_id = encodedDocID, cr_server_seq = ch_ServerSeq cn,
      cr_actor = encodeActorID env (ch_Actor cn), cr_client_seq = ch_ClientSeq cn,
      cr_lamport = ch_Lamport cn, cr_message = ch_Message cn,
      cr_operations = encodedOperations\<rparr>"

text \<open>The stored server_seq of a document, found by its id.\<close>

definition stored_server_seq :: "store \<Rightarrow> object_id \<Rightarrow> uint64 option" where
  "stored_server_seq db encodedDocID =
     map_option dc_server_seq (find (\<lambda>r. dc_id r = encodedDocID) (documents db))"

text \<open>
  The snapshot path as the specification words it, for comparison with \<open>pullSnapshot\<close>:
  find the latest snapshot with serverSeq \<open>\<le>\<close> initialServerSeq (the empty snapshot at
  serverSeq 0 when there is none); if its serverSeq equals initialServerSeq, return the
  snapshot bytes unchanged with the advanced checkpoint; otherwise deserialize the
  snapshot, read the changes in (snapshot.serverSeq, initialServerSeq], apply them and
  serialize the root. The store is taken to answer without driver errors.
\<close>

definition claimed_pullSnapshot ::
  "'doc env \<Rightarrow> Backend \<Rightarrow> ClientInfo \<Rightarrow> DocInfo \<Rightarrow> Pack \<Rightarrow> Checkpoint \<Rightarrow> uint64
     \<Rightarrow> error + Checkpoint \<times> bytes" where
  "claimed_pullSnapshot env be clientInfo docInfo pack pushedCP initialServerSeq =
     (case encodeID env (di_ID docInfo) of
        None \<Rightarrow> Inl ErrInvalidID
      | Some encodedDocID \<Rightarrow>
          (let snapshotInfo =
             (case FindOneSorted None
                     (\<lambda>r. sr_doc_id r = encodedDocID \<and> sr_server_seq r \<le> initialServerSeq)
                     (\<lambda>a b. sr_server_seq b < sr_server_seq a) (snapshots (DB be)) of
                Found r \<Rightarrow> decode_SnapshotInfo env r
              | _ \<Rightarrow> zero_SnapshotInfo)
           in if sn_ServerSeq snapshotInfo = initialServerSeq
              then Inr (NextServerSeq pushedCP (di_ServerSeq docInfo), sn_Snapshot snapshotInfo)
              else
                (case GetKey env docInfo of
                   Inl e \<Rightarrow> Inl e
                 | Inr docKey \<Rightarrow>
                (case NewInternalDocumentFromSnapshot env (Collection docKey) (Document docKey)
                        (sn_ServerSeq snapshotInfo) (sn_Snapshot snapshotInfo) of
                   None \<Rightarrow> Inl ErrDocument
                 | Some doc \<Rightarrow>
                (case to_changes env
                        (map (decode_ChangeInfo env)
                           (changes_in (DB be) encodedDocID (sn_ServerSeq snapshotInfo)
                              initialServerSeq)) of
                   Inl e \<Rightarrow> Inl e
                 | Inr cs \<Rightarrow>
                (case ApplyChangePack env doc
                        (NewPack docKey (NextServerSeq Initial (di_ServerSeq docInfo)) cs []) of
                   None \<Rightarrow> Inl ErrDocument
                 | Some doc' \<Rightarrow>
                (case RootObjectToBytes env doc' of
                   None \<Rightarrow> Inl ErrDocument
                 | Some snapshot \<Rightarrow>
                     Inr (NextServerSeq pushedCP (di_ServerSeq docInfo), snapshot))))))))"

section \<open>Example data\<close>

text \<open>
  An environment in which nothing fails: an id is encoded when it has 24 characters;
  a document is the list of bytes of its snapshot followed by one byte for every change
  applied (the low byte of the change's serverSeq), and is serialized as that list.
\<close>

definition demo_env :: "bytes env" where
  "demo_env =
     \<lparr>encodeID = (\<lambda>s. if length s = 24 then Some (ObjectID s) else None),
      decodeID = (\<lambda>oid. case oid of ObjectID s \<Rightarrow> s),
      encodeActorID = (\<lambda>a. case a of ActorID s \<Rightarrow> ObjectID s),
      ActorIDFromHex = (\<lambda>s. if length s = 24 then Some (ActorID s) else None),
      EncodeOperations = (\<lambda>ops. Some (map (\<lambda>opn. case opn of Operation s \<Rightarrow> map (\<lambda>c. of_nat (of_char c)) s) ops)),
      FromBSONKey = (\<lambda>s. if CHR ''$'' \<in> set s
                         then Some \<lparr>Collection = takeWhile (\<lambda>c. c \<noteq> CHR ''$'') s,
                                    Document = tl (dropWhile (\<lambda>c. c \<noteq> CHR ''$'') s)\<rparr>
                         else None),
      ToChange = (\<lambda>i. if length (cn_Actor i) = 24
                      then Some \<lparr>ch_ClientSeq = cn_ClientSeq i, ch_Lamport = cn_Lamport i,
                                 ch_Actor = ActorID (cn_Actor i), ch_ServerSeq = cn_ServerSeq i,
                                 ch_Message = cn_Message i, ch_Operations = []\<rparr>
                      else None),
      NewInternalDocumentFromSnapshot = (\<lambda>c d seq snapshot. Some snapshot),
      ApplyChangePack = (\<lambda>doc p. Some (doc @ map (\<lambda>c. ucast (ch_ServerSeq c)) (pk_Changes p))),
      RootObjectToBytes = (\<lambda>doc. Some doc),
      partialClientInfo = (\<lambda>r. zero_ClientInfo),
      fault = (\<lambda>c. None),
      now = 0\<rparr>"

definition demo_doc :: db_id where
  "demo_doc = ''d00000000000000000000001''"

definition demo_A :: db_id where
  "demo_A = ''a00000000000000000000001''"

definition demo_B :: db_id where
  "demo_B = ''b00000000000000000000002''"

definition demo_change :: "uint64 \<Rightarrow> change_row" where
  "demo_change n =
     \<lparr>cr_doc_id = ObjectID demo_doc, cr_server_seq = n, cr_actor = ObjectID demo_A,
      cr_client_seq = ucast n, cr_lamport = n, cr_message = [], cr_operations = []\<rparr>"

definition demo_Change :: "uint64 \<Rightarrow> Change" where
  "demo_Change n =
     \<lparr>ch_ClientSeq = ucast n, ch_Lamport = n, ch_Actor = ActorID demo_A, ch_ServerSeq = n,
      ch_Message = [], ch_Operations = []\<rparr>"

definition demo_snapshot :: "uint64 \<Rightarrow> bytes \<Rightarrow> snapshot_row" where
  "demo_snapshot n b = \<lparr>sr_doc_id = ObjectID demo_doc, sr_server_seq = n, sr_snapshot = b\<rparr>"

definition demo_client_row :: "document_status \<Rightarrow> uint64 \<Rightarrow> uint32 \<Rightarrow> client_row" where
  "demo_client_row st s c =
     \<lparr>cl_id = ObjectID demo_B, cl_key = ''client-b'', cl_status = ''activated'',
      cl_documents = [demo_doc \<mapsto> \<lparr>cd_Status = st, cd_ServerSeq = s, cd_ClientSeq = c\<rparr>],
      cl_updated_at = 1\<rparr>"

definition demo_synced :: "db_id \<Rightarrow> uint64 \<Rightarrow> syncedseq_row" where
  "demo_synced c n =
     \<lparr>sq_doc_id = ObjectID demo_doc, sq_client_id = ObjectID c, sq_server_seq = n\<rparr>"

text \<open>
  A store with five changes of the document, its snapshots at serverSeq 2 and 5, the
  client B attached at (3, 1), and the synced seqs 4 of client A and 2 of client B.
\<close>

definition demo_store :: store where
  "demo_store =
     \<lparr>clients = [demo_client_row DocumentAttached 3 1],
      documents = [\<lparr>dc_id = ObjectID demo_doc, dc_key = ''docs$d1'', dc_server_seq = 5,
                    dc_updated_at = 0\<rparr>],
      changes = [demo_change 1, demo_change 2, demo_change 3, demo_change 4, demo_change 5],
      snapshots = [demo_snapshot 2 [1, 2], demo_snapshot 5 [1, 2, 3, 4, 5]],
      syncedseqs = [demo_synced demo_A 4, demo_synced demo_B 2]\<rparr>"

definition demo_docInfo :: "uint64 \<Rightarrow> DocInfo" where
  "demo_docInfo n = \<lparr>di_ID = demo_doc, di_Key = ''docs$d1'', di_ServerSeq = n\<rparr>"

definition demo_key :: Key where
  "demo_key = \<lparr>Collection = ''docs'', Document = ''d1''\<rparr>"

definition demo_clientInfo :: "document_status \<Rightarrow> uint64 \<Rightarrow> uint32 \<Rightarrow> ClientInfo" where
  "demo_clientInfo st s c =
     \<lparr>ci_ID = demo_B, ci_Key = ''client-b'', ci_Status = ''activated'',
      ci_Documents = [demo_doc \<mapsto> \<lparr>cd_Status = st, cd_ServerSeq = s, cd_ClientSeq = c\<rparr>],
      ci_UpdatedAt = 7\<rparr>"

definition demo_pack :: "uint64 \<Rightarrow> Pack" where
  "demo_pack n =
     NewPack demo_key \<lparr>cp_ServerSeq = n, cp_ClientSeq = 0\<rparr> [] []"

section \<open>Properties of the locker\<close>

lemma TryLock_free:
  "\<not> locks il (key il) \<Longrightarrow> TryLock il = Returns (None, il\<lparr>locks := (locks il)(key il := True)\<rparr>)"
  by (simp add: TryLock_def locks_Lock_def)

lemma TryLock_held: "locks il (key il) \<Longrightarrow> TryLock il = Blocks"
  by (simp add: TryLock_def locks_Lock_def)

text \<open>
  C7. The claim is that \<open>TryLock\<close> never waits and answers Busy on a held key. On the
  key \<open>push-pull:d1\<close>, held by another session, the call made by the code is
  \<open>locks.Lock\<close>, which waits for the holder: the outcome is \<open>Blocks\<close>, and no error value
  is returned.
\<close>

theorem TryLock_blocks_on_held_key:
  "TryLock \<lparr>key = ''push-pull:d1'', locks = (\<lambda>_. False)(''push-pull:d1'' := True)\<rparr> = Blocks"
  by (simp add: TryLock_def locks_Lock_def)

section \<open>Facts about the driver operations\<close>

lemma find_None_iff_set: "find p xs = None \<longleftrightarrow> (\<forall>x\<in>set xs. \<not> p x)"
  by (induction xs) auto

lemma find_Some_D: "find p xs = Some x \<Longrightarrow> x \<in> set xs \<and> p x"
  by (induction xs) (auto split: if_splits)

lemma find_unique:
  assumes "x \<in> set xs" and "p x" and uniq: "\<forall>y\<in>set xs. p y \<longrightarrow> y = x"
  shows "find p xs = Some x"
proof -
  from assms(1,2) have "find p xs \<noteq> None"
    unfolding find_None_iff_set by blast
  then obtain y where y: "find p xs = Some y"
    by blast
  from find_Some_D [OF y] uniq have "y = x"
    by blast
  with y show ?thesis
    by blast
qed

lemma pick_mem: "pick earlier b rs \<in> set (b # rs)"
proof (induction rs arbitrary: b)
  case Nil
  show ?case by simp
next
  case (Cons r rs)
  have "pick earlier (if earlier r b then r else b) rs \<in> set ((if earlier r b then r else b) # rs)"
    by (rule Cons.IH)
  then show ?case by (cases "earlier r b") auto
qed

lemma pick_least:
  fixes f :: "'r \<Rightarrow> 'k::linorder"
  shows "x \<in> set (b # rs) \<Longrightarrow> f (pick (\<lambda>a c. f a < f c) b rs) \<le> f x"
proof (induction rs arbitrary: b x)
  case Nil
  then show ?case by simp
next
  case (Cons r rs)
  define b' where "b' = (if f r < f b then r else b)"
  have step: "pick (\<lambda>a c. f a < f c) b (r # rs) = pick (\<lambda>a c. f a < f c) b' rs"
    by (simp add: b'_def)
  have "f (pick (\<lambda>a c. f a < f c) b' rs) \<le> f b'"
    by (rule Cons.IH) simp
  moreover have "f b' \<le> f b" and "f b' \<le> f r"
    by (auto simp: b'_def)
  moreover have "x \<in> set rs \<Longrightarrow> f (pick (\<lambda>a c. f a < f c) b' rs) \<le> f x"
    by (rule Cons.IH) simp
  moreover from Cons.prems have "x = b \<or> x = r \<or> x \<in> set rs"
    by auto
  ultimately show ?case
    unfolding step by (elim disjE) (auto intro: order_trans)
qed

lemma pick_greatest:
  fixes f :: "'r \<Rightarrow> 'k::linorder"
  shows "x \<in> set (b # rs) \<Longrightarrow> f x \<le> f (pick (\<lambda>a c. f c < f a) b rs)"
proof (induction rs arbitrary: b x)
  case Nil
  then show ?case by simp
next
  case (Cons r rs)
  define b' where "b' = (if f b < f r then r else b)"
  have step: "pick (\<lambda>a c. f c < f a) b (r # rs) = pick (\<lambda>a c. f c < f a) b' rs"
    by (simp add: b'_def)
  have "f b' \<le> f (pick (\<lambda>a c. f c < f a) b' rs)"
    by (rule Cons.IH) simp
  moreover have "f b \<le> f b'" and "f r \<le> f b'"
    by (auto simp: b'_def)
  moreover have "x \<in> set rs \<Longrightarrow> f x \<le> f (pick (\<lambda>a c. f c < f a) b' rs)"
    by (rule Cons.IH) simp
  moreover from Cons.prems have "x = b \<or> x = r \<or> x \<in> set rs"
    by auto
  ultimately show ?case
    unfolding step by (elim disjE) (auto intro: order_trans)
qed

lemma update_first_None_iff: "update_first p f rs = None \<longleftrightarrow> (\<forall>r\<in>set rs. \<not> p r)"
  by (induction rs) auto

lemma update_first_Some:
  "update_first p f rs = Some rs' \<Longrightarrow>
     \<exists>pre r post. rs = pre @ r # post \<and> (\<forall>x\<in>set pre. \<not> p x) \<and> p r \<and> rs' = pre @ f r # post"
proof (induction rs arbitrary: rs')
  case Nil
  then show ?case by simp
next
  case (Cons a rs)
  show ?case
  proof (cases "p a")
    case True
    with Cons.prems have "rs' = f a # rs" by simp
    with True have "a # rs = [] @ a # rs \<and> (\<forall>x\<in>set []. \<not> p x) \<and> p a \<and> rs' = [] @ f a # rs"
      by simp
    then show ?thesis by blast
  next
    case False
    with Cons.prems obtain rs'' where u: "update_first p f rs = Some rs''" and r: "rs' = a # rs''"
      by auto
    from Cons.IH [OF u] obtain pre r0 post where
      s: "rs = pre @ r0 # post" "\<forall>x\<in>set pre. \<not> p x" "p r0" "rs'' = pre @ f r0 # post"
      by blast
    from s r False have "a # rs = (a # pre) @ r0 # post \<and> (\<forall>x\<in>set (a # pre). \<not> p x) \<and> p r0 \<and>
        rs' = (a # pre) @ f r0 # post"
      by simp
    then show ?thesis by blast
  qed
qed

lemma delete_first_other: "\<not> p r \<Longrightarrow> r \<in> set (delete_first p rs) \<longleftrightarrow> r \<in> set rs"
  by (induction rs) auto

section \<open>Properties of the pull stage\<close>

subsection \<open>Errors of the pull stage, and the check of the checkpoint\<close>

lemma inc_range:
  fixes lo :: uint64
  assumes "lo \<noteq> - 1"
  shows "(lo + 1 \<le> x) = (lo < x)"
  using assms by (simp add: inc_less_eq_iff)

lemma less_not_max:
  fixes lo :: uint64
  assumes "lo < hi"
  shows "lo \<noteq> - 1"
proof
  assume "lo = - 1"
  with assms have "- 1 < hi" by simp
  then show False by simp
qed

lemma FindChangeInfos_range:
  assumes "encodeID env docID = Some enc"
    and "fault env Changes_Find = None" and "fault env Changes_All = None"
    and "lo \<noteq> - 1"
  shows "FindChangeInfosBetweenServerSeqs env db docID (lo + 1) hi =
           Inr (map (decode_ChangeInfo env) (changes_in db enc lo hi))"
  using assms by (simp add: FindChangeInfosBetweenServerSeqs_def changes_in_def inc_range)

lemma FindChangeInfos_error:
  "FindChangeInfosBetweenServerSeqs env db docID lo hi = Inl e \<Longrightarrow>
     e = ErrInvalidID \<or> (\<exists>m. e = ErrDriver m)"
  by (auto simp: FindChangeInfosBetweenServerSeqs_def split: option.splits)

lemma to_changes_error: "to_changes env infos = Inl e \<Longrightarrow> e = ErrDocument"
  by (induction infos) (auto split: option.splits sum.splits)

lemma FindChanges_error:
  "FindChangesBetweenServerSeqs env db docID lo hi = Inl e \<Longrightarrow>
     e = ErrInvalidID \<or> e = ErrDocument \<or> (\<exists>m. e = ErrDriver m)"
  by (auto simp: FindChangesBetweenServerSeqs_def split: sum.splits
      dest: FindChangeInfos_error to_changes_error)

lemma FindLastSnapshotInfo_error:
  "FindLastSnapshotInfo env db docID = Inl e \<Longrightarrow> e = ErrInvalidID \<or> (\<exists>m. e = ErrDriver m)"
  by (auto simp: FindLastSnapshotInfo_def FindOneSorted_def
      split: option.splits single_result.splits list.splits)

lemma GetKey_error: "GetKey env docInfo = Inl e \<Longrightarrow> e = ErrInvalidKey"
  by (auto simp: GetKey_def split: option.splits)

lemma pullChangeInfos_error:
  "pullChangeInfos env be clientInfo docInfo requestPack pushedCP initialServerSeq = Inl e \<Longrightarrow>
     e \<noteq> ErrInvalidServerSeq"
  by (auto simp: pullChangeInfos_def split: sum.splits dest: FindChangeInfos_error)

lemma pullSnapshot_error:
  "pullSnapshot env be clientInfo docInfo pack pushedCP initialServerSeq = Inl e \<Longrightarrow>
     e \<noteq> ErrInvalidServerSeq"
  by (auto simp: pullSnapshot_def split: sum.splits option.splits if_splits
      dest: FindLastSnapshotInfo_error FindChanges_error GetKey_error)

text \<open>
  C5. When the document key of \<open>docInfo\<close> decodes, \<open>pullPack\<close> fails with
  \<open>ErrInvalidServerSeq\<close> exactly when initialServerSeq is below the serverSeq of the
  request pack's checkpoint, and then it returns no pack. (\<open>GetKey\<close> is called first,
  and its error is the one returned when it fails.)
\<close>

theorem pullPack_InvalidServerSeq:
  assumes "GetKey env docInfo = Inr docKey"
  shows "(pullPack env be clientInfo docInfo requestPack pushedCP initialServerSeq
            = Inl ErrInvalidServerSeq
          \<longleftrightarrow> initialServerSeq < cp_ServerSeq (pk_Checkpoint requestPack)) \<and>
         (initialServerSeq < cp_ServerSeq (pk_Checkpoint requestPack) \<longrightarrow>
            (\<forall>pack. pullPack env be clientInfo docInfo requestPack pushedCP initialServerSeq
                      \<noteq> Inr pack))"
  using assms
  by (auto simp: pullPack_def split: sum.splits prod.splits
      dest: pullChangeInfos_error pullSnapshot_error)

theorem pullPack_InvalidServerSeq_witness:
  "GetKey demo_env (demo_docInfo 5) = Inr demo_key \<and>
   (5 :: uint64) < cp_ServerSeq (pk_Checkpoint (demo_pack 9999)) \<and>
   pullPack demo_env \<lparr>SnapshotThreshold = 500, DB = demo_store\<rparr>
     (demo_clientInfo DocumentAttached 0 0) (demo_docInfo 5) (demo_pack 9999)
     \<lparr>cp_ServerSeq = 9999, cp_ClientSeq = 0\<rparr> 5 = Inl ErrInvalidServerSeq"
proof -
  have k: "GetKey demo_env (demo_docInfo 5) = Inr demo_key"
    by (simp add: GetKey_def demo_env_def demo_docInfo_def demo_key_def)
  have lt: "(5 :: uint64) < cp_ServerSeq (pk_Checkpoint (demo_pack 9999))"
    by (simp add: demo_pack_def NewPack_def)
  from pullPack_InvalidServerSeq [OF k] lt
  have "pullPack demo_env \<lparr>SnapshotThreshold = 500, DB = demo_store\<rparr>
     (demo_clientInfo DocumentAttached 0 0) (demo_docInfo 5) (demo_pack 9999)
     \<lparr>cp_ServerSeq = 9999, cp_ClientSeq = 0\<rparr> 5 = Inl ErrInvalidServerSeq"
    by blast
  with k lt show ?thesis
    by blast
qed

subsection \<open>The changes response\<close>

lemma pullPack_changes:
  assumes "GetKey env docInfo = Inr docKey"
    and "encodeID env (di_ID docInfo) = Some enc"
    and "fault env Changes_Find = None" and "fault env Changes_All = None"
    and "cp_ServerSeq (pk_Checkpoint requestPack) \<le> initialServerSeq"
    and "cp_ServerSeq (pk_Checkpoint requestPack) \<noteq> - 1"
    and "initialServerSeq - cp_ServerSeq (pk_Checkpoint requestPack) < SnapshotThreshold be"
  shows "pullPack env be clientInfo docInfo requestPack pushedCP initialServerSeq =
           Inr (NewServerPack docKey (NextServerSeq pushedCP (di_ServerSeq docInfo))
                  (map (decode_ChangeInfo env)
                     (changes_in (DB be) enc (cp_ServerSeq (pk_Checkpoint requestPack))
                        initialServerSeq)) [])"
  using assms by (simp add: pullPack_def pullChangeInfos_def FindChangeInfos_range)

lemma pullPack_snapshot:
  assumes "GetKey env docInfo = Inr docKey"
    and "cp_ServerSeq (pk_Checkpoint requestPack) \<le> initialServerSeq"
    and "SnapshotThreshold be \<le> initialServerSeq - cp_ServerSeq (pk_Checkpoint requestPack)"
  shows "pullPack env be clientInfo docInfo requestPack pushedCP initialServerSeq =
           (case pullSnapshot env be clientInfo docInfo requestPack pushedCP initialServerSeq of
              Inl e \<Rightarrow> Inl e
            | Inr (pulledCP, snapshot) \<Rightarrow> Inr (NewServerPack docKey pulledCP [] snapshot))"
  using assms by (simp add: pullPack_def not_less [symmetric])

lemma changes_in_ascending:
  assumes "sorted_wrt (<) (map cr_server_seq (filter (\<lambda>r. cr_doc_id r = enc) (changes db)))"
  shows "sorted_wrt (<) (map cn_ServerSeq (map (decode_ChangeInfo env) (changes_in db enc lo hi)))"
proof -
  have split: "changes_in db enc lo hi =
      filter (\<lambda>r. lo < cr_server_seq r \<and> cr_server_seq r \<le> hi)
        (filter (\<lambda>r. cr_doc_id r = enc) (changes db))"
    by (simp add: changes_in_def conj_commute conj_left_commute)
  have seqs: "map cn_ServerSeq (map (decode_ChangeInfo env) rs) = map cr_server_seq rs" for rs
    by (simp add: decode_ChangeInfo_def)
  from assms have "sorted_wrt (\<lambda>a b. cr_server_seq a < cr_server_seq b)
      (filter (\<lambda>r. cr_doc_id r = enc) (changes db))"
    by (simp add: sorted_wrt_map)
  then have "sorted_wrt (\<lambda>a b. cr_server_seq a < cr_server_seq b) (changes_in db enc lo hi)"
    unfolding split by (rule sorted_wrt_filter)
  then show ?thesis
    unfolding seqs by (simp add: sorted_wrt_map)
qed

text \<open>
  C2, as the code has it. For a request whose checkpoint serverSeq is at most
  initialServerSeq (and below the largest \<open>uint64\<close>, where \<open>ServerSeq + 1\<close> does not
  wrap), with the document key and id decoding and the two driver calls succeeding:
  when the difference is below \<open>SnapshotThreshold\<close>, \<open>pullPack\<close> returns a changes
  response (empty snapshot) whose changes are exactly the persisted changes of the
  document with serverSeq in (checkpoint.serverSeq, initialServerSeq], in the order the
  store holds them, and whose checkpoint is \<open>pushedCP.NextServerSeq(docInfo.ServerSeq)\<close>;
  that order is strictly ascending in serverSeq when the store holds the document's
  changes in that order; when the difference is exactly \<open>SnapshotThreshold\<close>, the answer
  is that of \<open>pullSnapshot\<close>, with no changes.
\<close>

theorem pullPack_changes_response:
  assumes "GetKey env docInfo = Inr docKey"
    and "encodeID env (di_ID docInfo) = Some enc"
    and "fault env Changes_Find = None" and "fault env Changes_All = None"
    and "cp_ServerSeq (pk_Checkpoint requestPack) \<le> initialServerSeq"
    and "cp_ServerSeq (pk_Checkpoint requestPack) \<noteq> - 1"
  shows
    "(initialServerSeq - cp_ServerSeq (pk_Checkpoint requestPack) < SnapshotThreshold be \<longrightarrow>
        pullPack env be clientInfo docInfo requestPack pushedCP initialServerSeq =
          Inr (NewServerPack docKey (NextServerSeq pushedCP (di_ServerSeq docInfo))
                 (map (decode_ChangeInfo env)
                    (changes_in (DB be) enc (cp_ServerSeq (pk_Checkpoint requestPack))
                       initialServerSeq)) [])) \<and>
     (sorted_wrt (<) (map cr_server_seq (filter (\<lambda>r. cr_doc_id r = enc) (changes (DB be)))) \<longrightarrow>
        sorted_wrt (<) (map cn_ServerSeq
          (map (decode_ChangeInfo env)
             (changes_in (DB be) enc (cp_ServerSeq (pk_Checkpoint requestPack))
                initialServerSeq)))) \<and>
     (initialServerSeq - cp_ServerSeq (pk_Checkpoint requestPack) = SnapshotThreshold be \<longrightarrow>
        pullPack env be clientInfo docInfo requestPack pushedCP initialServerSeq =
          (case pullSnapshot env be clientInfo docInfo requestPack pushedCP initialServerSeq of
             Inl e \<Rightarrow> Inl e
           | Inr (pulledCP, snapshot) \<Rightarrow> Inr (NewServerPack docKey pulledCP [] snapshot)))"
proof (intro conjI impI)
  assume "initialServerSeq - cp_ServerSeq (pk_Checkpoint requestPack) < SnapshotThreshold be"
  with assms show "pullPack env be clientInfo docInfo requestPack pushedCP initialServerSeq =
          Inr (NewServerPack docKey (NextServerSeq pushedCP (di_ServerSeq docInfo))
                 (map (decode_ChangeInfo env)
                    (changes_in (DB be) enc (cp_ServerSeq (pk_Checkpoint requestPack))
                       initialServerSeq)) [])"
    by (rule pullPack_changes)
next
  assume "sorted_wrt (<) (map cr_server_seq (filter (\<lambda>r. cr_doc_id r = enc) (changes (DB be))))"
  then show "sorted_wrt (<) (map cn_ServerSeq
          (map (decode_ChangeInfo env)
             (changes_in (DB be) enc (cp_ServerSeq (pk_Checkpoint requestPack))
                initialServerSeq)))"
    by (rule changes_in_ascending)
next
  assume "initialServerSeq - cp_ServerSeq (pk_Checkpoint requestPack) = SnapshotThreshold be"
  then have "SnapshotThreshold be \<le> initialServerSeq - cp_ServerSeq (pk_Checkpoint requestPack)"
    by simp
  with assms(1,5) show "pullPack env be clientInfo docInfo requestPack pushedCP initialServerSeq =
          (case pullSnapshot env be clientInfo docInfo requestPack pushedCP initialServerSeq of
             Inl e \<Rightarrow> Inl e
           | Inr (pulledCP, snapshot) \<Rightarrow> Inr (NewServerPack docKey pulledCP [] snapshot))"
    by (rule pullPack_snapshot)
qed

lemmas demo_defs = demo_env_def demo_store_def demo_docInfo_def demo_doc_def demo_A_def
  demo_B_def demo_change_def demo_Change_def demo_snapshot_def demo_key_def demo_pack_def
  demo_clientInfo_def demo_client_row_def demo_synced_def

text \<open>
  The checkpoint of the changes response is taken from \<open>docInfo.ServerSeq\<close>, not from
  initialServerSeq: with \<open>docInfo.ServerSeq = 5\<close> and \<open>initialServerSeq = 3\<close> the pulled
  checkpoint is (5, 2), and \<open>pushedCP.NextServerSeq(initialServerSeq)\<close> is (3, 2).
\<close>

theorem pullPack_checkpoint_counterexample:
  "pullPack demo_env \<lparr>SnapshotThreshold = 500, DB = demo_store\<rparr>
     (demo_clientInfo DocumentAttached 0 0) (demo_docInfo 5) (demo_pack 1)
     \<lparr>cp_ServerSeq = 1, cp_ClientSeq = 2\<rparr> 3 =
     Inr (NewServerPack demo_key \<lparr>cp_ServerSeq = 5, cp_ClientSeq = 2\<rparr>
            (map (decode_ChangeInfo demo_env) [demo_change 2, demo_change 3]) []) \<and>
   NextServerSeq \<lparr>cp_ServerSeq = 1, cp_ClientSeq = 2\<rparr> 3 \<noteq> \<lparr>cp_ServerSeq = 5, cp_ClientSeq = 2\<rparr>"
  by (simp add: pullPack_def pullChangeInfos_def FindChangeInfosBetweenServerSeqs_def GetKey_def
      NextServerSeq_def NewPack_def demo_defs word_le_nat_alt word_less_nat_alt)

theorem pullPack_changes_response_witness:
  "GetKey demo_env (demo_docInfo 5) = Inr demo_key \<and>
   encodeID demo_env (di_ID (demo_docInfo 5)) = Some (ObjectID demo_doc) \<and>
   fault demo_env Changes_Find = None \<and> fault demo_env Changes_All = None \<and>
   cp_ServerSeq (pk_Checkpoint (demo_pack 1)) \<le> 5 \<and>
   cp_ServerSeq (pk_Checkpoint (demo_pack 1)) \<noteq> - 1 \<and>
   pullPack demo_env \<lparr>SnapshotThreshold = 500, DB = demo_store\<rparr>
     (demo_clientInfo DocumentAttached 0 0) (demo_docInfo 5) (demo_pack 1)
     \<lparr>cp_ServerSeq = 1, cp_ClientSeq = 0\<rparr> 5 =
     Inr (NewServerPack demo_key \<lparr>cp_ServerSeq = 5, cp_ClientSeq = 0\<rparr>
            (map (decode_ChangeInfo demo_env)
               [demo_change 2, demo_change 3, demo_change 4, demo_change 5]) []) \<and>
   sorted_wrt (<) (map cn_ServerSeq (map (decode_ChangeInfo demo_env)
     (changes_in demo_store (ObjectID demo_doc) 1 5))) \<and>
   pullPack demo_env \<lparr>SnapshotThreshold = 4, DB = demo_store\<rparr>
     (demo_clientInfo DocumentAttached 0 0) (demo_docInfo 5) (demo_pack 1)
     \<lparr>cp_ServerSeq = 1, cp_ClientSeq = 0\<rparr> 5 =
     Inr (NewServerPack demo_key \<lparr>cp_ServerSeq = 5, cp_ClientSeq = 0\<rparr> [] [1, 2, 3, 4, 5])"
proof -
  have k: "GetKey demo_env (demo_docInfo 5) = Inr demo_key"
    by (simp add: GetKey_def demo_defs)
  have e: "encodeID demo_env (di_ID (demo_docInfo 5)) = Some (ObjectID demo_doc)"
    by (simp add: demo_defs)
  have f: "fault demo_env Changes_Find = None" "fault demo_env Changes_All = None"
    by (simp_all add: demo_defs)
  have r: "cp_ServerSeq (pk_Checkpoint (demo_pack 1)) \<le> 5"
    "cp_ServerSeq (pk_Checkpoint (demo_pack 1)) \<noteq> - 1"
    by (simp_all add: demo_defs NewPack_def word_le_nat_alt)
  have cp1: "cp_ServerSeq (pk_Checkpoint (demo_pack 1)) = 1"
    by (simp add: demo_pack_def NewPack_def)
  have rows: "changes_in demo_store (ObjectID demo_doc) 1 5 =
      [demo_change 2, demo_change 3, demo_change 4, demo_change 5]"
    by (simp add: changes_in_def demo_defs word_le_nat_alt word_less_nat_alt)
  have asc: "sorted_wrt (<) (map cr_server_seq
      (filter (\<lambda>r. cr_doc_id r = ObjectID demo_doc) (changes demo_store)))"
    by (simp add: demo_defs word_less_nat_alt)
  have snap: "pullSnapshot demo_env \<lparr>SnapshotThreshold = 4, DB = demo_store\<rparr>
     (demo_clientInfo DocumentAttached 0 0) (demo_docInfo 5) (demo_pack 1)
     \<lparr>cp_ServerSeq = 1, cp_ClientSeq = 0\<rparr> 5 =
     Inr (\<lparr>cp_ServerSeq = 5, cp_ClientSeq = 0\<rparr>, [1, 2, 3, 4, 5])"
    by (simp add: pullSnapshot_def FindLastSnapshotInfo_def FindOneSorted_def
        decode_SnapshotInfo_def NextServerSeq_def demo_defs word_less_nat_alt)
  note t = pullPack_changes_response [OF k e f r,
      where pushedCP = "\<lparr>cp_ServerSeq = 1, cp_ClientSeq = 0\<rparr>"
        and clientInfo = "demo_clientInfo DocumentAttached 0 0"]
  from t [where be = "\<lparr>SnapshotThreshold = 500, DB = demo_store\<rparr>"]
  have a: "pullPack demo_env \<lparr>SnapshotThreshold = 500, DB = demo_store\<rparr>
     (demo_clientInfo DocumentAttached 0 0) (demo_docInfo 5) (demo_pack 1)
     \<lparr>cp_ServerSeq = 1, cp_ClientSeq = 0\<rparr> 5 =
     Inr (NewServerPack demo_key \<lparr>cp_ServerSeq = 5, cp_ClientSeq = 0\<rparr>
            (map (decode_ChangeInfo demo_env)
               [demo_change 2, demo_change 3, demo_change 4, demo_change 5]) [])"
    by (simp add: rows cp1 demo_docInfo_def NextServerSeq_def word_less_nat_alt)
  from t [where be = "\<lparr>SnapshotThreshold = 500, DB = demo_store\<rparr>"] asc
  have b: "sorted_wrt (<) (map cn_ServerSeq (map (decode_ChangeInfo demo_env)
     (changes_in demo_store (ObjectID demo_doc) 1 5)))"
    by (simp add: cp1)
  from t [where be = "\<lparr>SnapshotThreshold = 4, DB = demo_store\<rparr>"]
  have c: "pullPack demo_env \<lparr>SnapshotThreshold = 4, DB = demo_store\<rparr>
     (demo_clientInfo DocumentAttached 0 0) (demo_docInfo 5) (demo_pack 1)
     \<lparr>cp_ServerSeq = 1, cp_ClientSeq = 0\<rparr> 5 =
     Inr (NewServerPack demo_key \<lparr>cp_ServerSeq = 5, cp_ClientSeq = 0\<rparr> [] [1, 2, 3, 4, 5])"
    by (simp add: snap cp1)
  from k e f r a b c show ?thesis
    by blast
qed

subsection \<open>The snapshot response\<close>

lemma FindLastSnapshotInfo_none:
  assumes "encodeID env docID = Some enc" and "fault env Snapshots_FindOne = None"
    and "\<forall>r\<in>set (snapshots db). sr_doc_id r \<noteq> enc"
  shows "FindLastSnapshotInfo env db docID = Inr zero_SnapshotInfo"
proof -
  from assms(3) have "filter (\<lambda>r. sr_doc_id r = enc) (snapshots db) = []"
    by (simp add: filter_empty_conv)
  with assms(1,2) show ?thesis
    by (simp add: FindLastSnapshotInfo_def FindOneSorted_def)
qed

lemma FindLastSnapshotInfo_some:
  assumes "encodeID env docID = Some enc" and "fault env Snapshots_FindOne = None"
    and "fault env Snapshots_Decode = None"
    and "\<exists>r\<in>set (snapshots db). sr_doc_id r = enc"
  shows "\<exists>r\<in>set (snapshots db). sr_doc_id r = enc \<and>
           FindLastSnapshotInfo env db docID = Inr (decode_SnapshotInfo env r) \<and>
           (\<forall>r'\<in>set (snapshots db). sr_doc_id r' = enc \<longrightarrow> sr_server_seq r' \<le> sr_server_seq r)"
proof -
  from assms(4) have "filter (\<lambda>r. sr_doc_id r = enc) (snapshots db) \<noteq> []"
    by (simp add: filter_empty_conv)
  then obtain r rs where rows: "filter (\<lambda>r. sr_doc_id r = enc) (snapshots db) = r # rs"
    by (cases "filter (\<lambda>r. sr_doc_id r = enc) (snapshots db)") auto
  define best where "best = pick (\<lambda>a b. sr_server_seq b < sr_server_seq a) r rs"
  have "best \<in> set (r # rs)"
    unfolding best_def by (rule pick_mem)
  then have "best \<in> set (filter (\<lambda>r. sr_doc_id r = enc) (snapshots db))"
    by (simp only: rows)
  then have mem: "best \<in> set (snapshots db)" and doc: "sr_doc_id best = enc"
    by simp_all
  have top: "sr_server_seq r' \<le> sr_server_seq best"
    if "r' \<in> set (snapshots db)" and "sr_doc_id r' = enc" for r'
  proof -
    from that have "r' \<in> set (filter (\<lambda>r. sr_doc_id r = enc) (snapshots db))"
      by simp
    then have "r' \<in> set (r # rs)"
      by (simp only: rows)
    then show ?thesis
      unfolding best_def by (rule pick_greatest)
  qed
  from assms(1-3) rows
  have "FindLastSnapshotInfo env db docID = Inr (decode_SnapshotInfo env best)"
    by (simp add: FindLastSnapshotInfo_def FindOneSorted_def best_def)
  with mem doc top show ?thesis
    by blast
qed

lemma FindChanges_range:
  assumes "encodeID env docID = Some enc"
    and "fault env Changes_Find = None" and "fault env Changes_All = None"
    and "lo \<noteq> - 1"
  shows "FindChangesBetweenServerSeqs env db docID (lo + 1) hi =
           to_changes env (map (decode_ChangeInfo env) (changes_in db enc lo hi))"
  using assms by (simp add: FindChangesBetweenServerSeqs_def FindChangeInfos_range)

lemma pullSnapshot_unchanged:
  assumes "FindLastSnapshotInfo env (DB be) (di_ID docInfo) = Inr info"
    and "initialServerSeq \<le> sn_ServerSeq info"
  shows "pullSnapshot env be clientInfo docInfo pack pushedCP initialServerSeq =
           Inr (NextServerSeq pushedCP (di_ServerSeq docInfo), sn_Snapshot info)"
  using assms by (simp add: pullSnapshot_def)

lemma pullSnapshot_rebuild:
  assumes "FindLastSnapshotInfo env (DB be) (di_ID docInfo) = Inr info"
    and "sn_ServerSeq info < initialServerSeq"
    and "encodeID env (di_ID docInfo) = Some enc"
    and "GetKey env docInfo = Inr docKey"
    and "NewInternalDocumentFromSnapshot env (Collection docKey) (Document docKey)
           (sn_ServerSeq info) (sn_Snapshot info) = Some doc"
    and "fault env Changes_Find = None" and "fault env Changes_All = None"
    and "to_changes env (map (decode_ChangeInfo env)
           (changes_in (DB be) enc (sn_ServerSeq info) initialServerSeq)) = Inr cs"
    and "ApplyChangePack env doc
           (NewPack docKey (NextServerSeq Initial (di_ServerSeq docInfo)) cs []) = Some doc'"
    and "RootObjectToBytes env doc' = Some snapshot"
  shows "pullSnapshot env be clientInfo docInfo pack pushedCP initialServerSeq =
           Inr (NextServerSeq pushedCP (di_ServerSeq docInfo), snapshot)"
proof -
  from assms(2) have "sn_ServerSeq info \<noteq> - 1"
    by (rule less_not_max)
  with assms(3,6,7)
  have "FindChangesBetweenServerSeqs env (DB be) (di_ID docInfo) (sn_ServerSeq info + 1)
          initialServerSeq =
        to_changes env (map (decode_ChangeInfo env)
          (changes_in (DB be) enc (sn_ServerSeq info) initialServerSeq))"
    by (rule FindChanges_range)
  with assms show ?thesis
    by (simp add: pullSnapshot_def not_le [symmetric])
qed

text \<open>
  C1, as the code has it. With the document id encoding and the snapshot query answering,
  \<open>pullSnapshot\<close> takes the latest snapshot of the document, with no bound on its
  serverSeq (the empty snapshot at serverSeq 0 when the document has none). If that
  serverSeq is at least initialServerSeq, the snapshot bytes are returned unchanged with
  the checkpoint \<open>pushedCP.NextServerSeq(docInfo.ServerSeq)\<close>. Otherwise the snapshot is
  deserialized, exactly the persisted changes with serverSeq in
  (snapshot.serverSeq, initialServerSeq] are applied, in the store's order, and the root
  is serialized to bytes, whenever each of these steps succeeds.
\<close>

theorem pullSnapshot_latest_snapshot:
  assumes enc: "encodeID env (di_ID docInfo) = Some enc"
    and f1: "fault env Snapshots_FindOne = None"
    and f2: "fault env Snapshots_Decode = None"
  shows "\<exists>info.
      FindLastSnapshotInfo env (DB be) (di_ID docInfo) = Inr info \<and>
      ((\<forall>r\<in>set (snapshots (DB be)). sr_doc_id r \<noteq> enc) \<and> info = zero_SnapshotInfo \<or>
       (\<exists>r\<in>set (snapshots (DB be)). sr_doc_id r = enc \<and> info = decode_SnapshotInfo env r \<and>
          (\<forall>r'\<in>set (snapshots (DB be)).
             sr_doc_id r' = enc \<longrightarrow> sr_server_seq r' \<le> sr_server_seq r))) \<and>
      (initialServerSeq \<le> sn_ServerSeq info \<longrightarrow>
         pullSnapshot env be clientInfo docInfo pack pushedCP initialServerSeq =
           Inr (NextServerSeq pushedCP (di_ServerSeq docInfo), sn_Snapshot info)) \<and>
      (sn_ServerSeq info < initialServerSeq \<longrightarrow>
         (\<forall>docKey doc cs doc' snapshot.
            GetKey env docInfo = Inr docKey \<and>
            NewInternalDocumentFromSnapshot env (Collection docKey) (Document docKey)
              (sn_ServerSeq info) (sn_Snapshot info) = Some doc \<and>
            fault env Changes_Find = None \<and> fault env Changes_All = None \<and>
            to_changes env (map (decode_ChangeInfo env)
              (changes_in (DB be) enc (sn_ServerSeq info) initialServerSeq)) = Inr cs \<and>
            ApplyChangePack env doc
              (NewPack docKey (NextServerSeq Initial (di_ServerSeq docInfo)) cs []) = Some doc' \<and>
            RootObjectToBytes env doc' = Some snapshot \<longrightarrow>
            pullSnapshot env be clientInfo docInfo pack pushedCP initialServerSeq =
              Inr (NextServerSeq pushedCP (di_ServerSeq docInfo), snapshot)))"
proof -
  have "\<exists>info. FindLastSnapshotInfo env (DB be) (di_ID docInfo) = Inr info \<and>
      ((\<forall>r\<in>set (snapshots (DB be)). sr_doc_id r \<noteq> enc) \<and> info = zero_SnapshotInfo \<or>
       (\<exists>r\<in>set (snapshots (DB be)). sr_doc_id r = enc \<and> info = decode_SnapshotInfo env r \<and>
          (\<forall>r'\<in>set (snapshots (DB be)).
             sr_doc_id r' = enc \<longrightarrow> sr_server_seq r' \<le> sr_server_seq r)))"
  proof (cases "\<exists>r\<in>set (snapshots (DB be)). sr_doc_id r = enc")
    case True
    from FindLastSnapshotInfo_some [OF enc f1 f2 True] show ?thesis
      by blast
  next
    case False
    then have none: "\<forall>r\<in>set (snapshots (DB be)). sr_doc_id r \<noteq> enc"
      by blast
    from FindLastSnapshotInfo_none [OF enc f1 none] none show ?thesis
      by blast
  qed
  then obtain info where
    found: "FindLastSnapshotInfo env (DB be) (di_ID docInfo) = Inr info" and
    last: "(\<forall>r\<in>set (snapshots (DB be)). sr_doc_id r \<noteq> enc) \<and> info = zero_SnapshotInfo \<or>
       (\<exists>r\<in>set (snapshots (DB be)). sr_doc_id r = enc \<and> info = decode_SnapshotInfo env r \<and>
          (\<forall>r'\<in>set (snapshots (DB be)).
             sr_doc_id r' = enc \<longrightarrow> sr_server_seq r' \<le> sr_server_seq r))"
    by blast
  have unchanged: "initialServerSeq \<le> sn_ServerSeq info \<longrightarrow>
         pullSnapshot env be clientInfo docInfo pack pushedCP initialServerSeq =
           Inr (NextServerSeq pushedCP (di_ServerSeq docInfo), sn_Snapshot info)"
    using pullSnapshot_unchanged [OF found] by blast
  have rebuilt: "sn_ServerSeq info < initialServerSeq \<longrightarrow>
         (\<forall>docKey doc cs doc' snapshot.
            GetKey env docInfo = Inr docKey \<and>
            NewInternalDocumentFromSnapshot env (Collection docKey) (Document docKey)
              (sn_ServerSeq info) (sn_Snapshot info) = Some doc \<and>
            fault env Changes_Find = None \<and> fault env Changes_All = None \<and>
            to_changes env (map (decode_ChangeInfo env)
              (changes_in (DB be) enc (sn_ServerSeq info) initialServerSeq)) = Inr cs \<and>
            ApplyChangePack env doc
              (NewPack docKey (NextServerSeq Initial (di_ServerSeq docInfo)) cs []) = Some doc' \<and>
            RootObjectToBytes env doc' = Some snapshot \<longrightarrow>
            pullSnapshot env be clientInfo docInfo pack pushedCP initialServerSeq =
              Inr (NextServerSeq pushedCP (di_ServerSeq docInfo), snapshot))"
    using pullSnapshot_rebuild [OF found _ enc] by blast
  from found last unchanged rebuilt show ?thesis
    by blast
qed

text \<open>
  The claim bounds the snapshot by initialServerSeq and returns its bytes only when its
  serverSeq equals initialServerSeq. With snapshots at serverSeq 2 and 5 and
  initialServerSeq 3, the claim's path rebuilds from the snapshot at 2 and applies change
  3; the code answers with the bytes of the snapshot at 5.
\<close>

theorem pullSnapshot_newer_snapshot_counterexample:
  "pullSnapshot demo_env \<lparr>SnapshotThreshold = 2, DB = demo_store\<rparr>
     (demo_clientInfo DocumentAttached 0 0) (demo_docInfo 3) (demo_pack 0)
     \<lparr>cp_ServerSeq = 0, cp_ClientSeq = 0\<rparr> 3 =
     Inr (\<lparr>cp_ServerSeq = 3, cp_ClientSeq = 0\<rparr>, [1, 2, 3, 4, 5]) \<and>
   claimed_pullSnapshot demo_env \<lparr>SnapshotThreshold = 2, DB = demo_store\<rparr>
     (demo_clientInfo DocumentAttached 0 0) (demo_docInfo 3) (demo_pack 0)
     \<lparr>cp_ServerSeq = 0, cp_ClientSeq = 0\<rparr> 3 =
     Inr (\<lparr>cp_ServerSeq = 3, cp_ClientSeq = 0\<rparr>, [1, 2, 3])"
proof
  show "pullSnapshot demo_env \<lparr>SnapshotThreshold = 2, DB = demo_store\<rparr>
     (demo_clientInfo DocumentAttached 0 0) (demo_docInfo 3) (demo_pack 0)
     \<lparr>cp_ServerSeq = 0, cp_ClientSeq = 0\<rparr> 3 =
     Inr (\<lparr>cp_ServerSeq = 3, cp_ClientSeq = 0\<rparr>, [1, 2, 3, 4, 5])"
    by (simp add: pullSnapshot_def FindLastSnapshotInfo_def FindOneSorted_def
        decode_SnapshotInfo_def NextServerSeq_def demo_defs word_less_nat_alt word_le_nat_alt)
  show "claimed_pullSnapshot demo_env \<lparr>SnapshotThreshold = 2, DB = demo_store\<rparr>
     (demo_clientInfo DocumentAttached 0 0) (demo_docInfo 3) (demo_pack 0)
     \<lparr>cp_ServerSeq = 0, cp_ClientSeq = 0\<rparr> 3 =
     Inr (\<lparr>cp_ServerSeq = 3, cp_ClientSeq = 0\<rparr>, [1, 2, 3])"
    by (simp add: claimed_pullSnapshot_def FindOneSorted_def GetKey_def changes_in_def
        decode_SnapshotInfo_def decode_ChangeInfo_def NextServerSeq_def NewPack_def Initial_def
        demo_defs word_less_nat_alt word_le_nat_alt)
qed

theorem pullSnapshot_latest_snapshot_witness:
  "encodeID demo_env (di_ID (demo_docInfo 5)) = Some (ObjectID demo_doc) \<and>
   fault demo_env Snapshots_FindOne = None \<and> fault demo_env Snapshots_Decode = None \<and>
   pullSnapshot demo_env \<lparr>SnapshotThreshold = 2, DB = demo_store\<rparr>
     (demo_clientInfo DocumentAttached 0 0) (demo_docInfo 5) (demo_pack 0)
     \<lparr>cp_ServerSeq = 0, cp_ClientSeq = 0\<rparr> 5 =
     Inr (\<lparr>cp_ServerSeq = 5, cp_ClientSeq = 0\<rparr>, [1, 2, 3, 4, 5]) \<and>
   pullSnapshot demo_env \<lparr>SnapshotThreshold = 2, DB = demo_store\<rparr>
     (demo_clientInfo DocumentAttached 0 0) (demo_docInfo 5) (demo_pack 0)
     \<lparr>cp_ServerSeq = 0, cp_ClientSeq = 0\<rparr> 4 =
     Inr (\<lparr>cp_ServerSeq = 5, cp_ClientSeq = 0\<rparr>, [1, 2, 3, 4, 5]) \<and>
   pullSnapshot demo_env
     \<lparr>SnapshotThreshold = 2, DB = demo_store\<lparr>snapshots := [demo_snapshot 2 [1, 2]]\<rparr>\<rparr>
     (demo_clientInfo DocumentAttached 0 0) (demo_docInfo 5) (demo_pack 0)
     \<lparr>cp_ServerSeq = 0, cp_ClientSeq = 0\<rparr> 4 =
     Inr (\<lparr>cp_ServerSeq = 5, cp_ClientSeq = 0\<rparr>, [1, 2, 3, 4])"
proof -
  let ?be' = "\<lparr>SnapshotThreshold = 2, DB = demo_store\<lparr>snapshots := [demo_snapshot 2 [1, 2]]\<rparr>\<rparr>"
  let ?be = "\<lparr>SnapshotThreshold = 2, DB = demo_store\<rparr>"
  let ?cp = "\<lparr>cp_ServerSeq = 0, cp_ClientSeq = 0\<rparr>"
  have e: "encodeID demo_env (di_ID (demo_docInfo 5)) = Some (ObjectID demo_doc)"
    by (simp add: demo_defs)
  have f: "fault demo_env Snapshots_FindOne = None" "fault demo_env Snapshots_Decode = None"
    by (simp_all add: demo_defs)
  have last: "FindLastSnapshotInfo demo_env (DB ?be) (di_ID (demo_docInfo 5)) =
      Inr \<lparr>sn_DocID = demo_doc, sn_ServerSeq = 5, sn_Snapshot = [1, 2, 3, 4, 5]\<rparr>"
    by (simp add: FindLastSnapshotInfo_def FindOneSorted_def decode_SnapshotInfo_def demo_defs
        word_less_nat_alt)
  have cp: "NextServerSeq ?cp (di_ServerSeq (demo_docInfo 5)) = \<lparr>cp_ServerSeq = 5, cp_ClientSeq = 0\<rparr>"
    by (simp add: NextServerSeq_def demo_docInfo_def)
  from pullSnapshot_latest_snapshot [OF e f, where be = ?be and initialServerSeq = 5
      and clientInfo = "demo_clientInfo DocumentAttached 0 0" and pack = "demo_pack 0"
      and pushedCP = ?cp] last
  have a: "pullSnapshot demo_env ?be (demo_clientInfo DocumentAttached 0 0) (demo_docInfo 5)
      (demo_pack 0) ?cp 5 = Inr (\<lparr>cp_ServerSeq = 5, cp_ClientSeq = 0\<rparr>, [1, 2, 3, 4, 5])"
    by (auto simp: cp)
  from pullSnapshot_latest_snapshot [OF e f, where be = ?be and initialServerSeq = 4
      and clientInfo = "demo_clientInfo DocumentAttached 0 0" and pack = "demo_pack 0"
      and pushedCP = ?cp] last
  have b: "pullSnapshot demo_env ?be (demo_clientInfo DocumentAttached 0 0) (demo_docInfo 5)
      (demo_pack 0) ?cp 4 = Inr (\<lparr>cp_ServerSeq = 5, cp_ClientSeq = 0\<rparr>, [1, 2, 3, 4, 5])"
    by (auto simp: cp word_le_nat_alt)
  have last': "FindLastSnapshotInfo demo_env (DB ?be') (di_ID (demo_docInfo 5)) =
      Inr \<lparr>sn_DocID = demo_doc, sn_ServerSeq = 2, sn_Snapshot = [1, 2]\<rparr>"
    by (simp add: FindLastSnapshotInfo_def FindOneSorted_def decode_SnapshotInfo_def demo_defs)
  have k: "GetKey demo_env (demo_docInfo 5) = Inr demo_key"
    by (simp add: GetKey_def demo_defs)
  have d: "NewInternalDocumentFromSnapshot demo_env (Collection demo_key) (Document demo_key)
      2 [1, 2] = Some [1, 2]"
    by (simp add: demo_env_def)
  have g: "fault demo_env Changes_Find = None" "fault demo_env Changes_All = None"
    by (simp_all add: demo_defs)
  have cs: "to_changes demo_env (map (decode_ChangeInfo demo_env)
      (changes_in (DB ?be') (ObjectID demo_doc) 2 4)) = Inr [demo_Change 3, demo_Change 4]"
    by (simp add: changes_in_def decode_ChangeInfo_def demo_defs word_less_nat_alt
        word_le_nat_alt)
  have ap: "ApplyChangePack demo_env [1, 2]
      (NewPack demo_key (NextServerSeq Initial (di_ServerSeq (demo_docInfo 5)))
         [demo_Change 3, demo_Change 4] []) = Some [1, 2, 3, 4]"
    by (simp add: NewPack_def demo_env_def demo_Change_def)
  have rt: "RootObjectToBytes demo_env [1, 2, 3, 4] = Some [1, 2, 3, 4]"
    by (simp add: demo_env_def)
  from pullSnapshot_latest_snapshot [OF e f, where be = ?be' and initialServerSeq = 4
      and clientInfo = "demo_clientInfo DocumentAttached 0 0" and pack = "demo_pack 0"
      and pushedCP = ?cp]
  obtain info where
    i: "FindLastSnapshotInfo demo_env (DB ?be') (di_ID (demo_docInfo 5)) = Inr info" and
    r: "sn_ServerSeq info < 4 \<longrightarrow>
         (\<forall>docKey doc cs doc' snapshot.
            GetKey demo_env (demo_docInfo 5) = Inr docKey \<and>
            NewInternalDocumentFromSnapshot demo_env (Collection docKey) (Document docKey)
              (sn_ServerSeq info) (sn_Snapshot info) = Some doc \<and>
            fault demo_env Changes_Find = None \<and> fault demo_env Changes_All = None \<and>
            to_changes demo_env (map (decode_ChangeInfo demo_env)
              (changes_in (DB ?be') (ObjectID demo_doc) (sn_ServerSeq info) 4)) = Inr cs \<and>
            ApplyChangePack demo_env doc
              (NewPack docKey (NextServerSeq Initial (di_ServerSeq (demo_docInfo 5))) cs [])
                = Some doc' \<and>
            RootObjectToBytes demo_env doc' = Some snapshot \<longrightarrow>
            pullSnapshot demo_env ?be' (demo_clientInfo DocumentAttached 0 0) (demo_docInfo 5)
              (demo_pack 0) ?cp 4 =
              Inr (NextServerSeq ?cp (di_ServerSeq (demo_docInfo 5)), snapshot))"
    by blast
  from i last' have info: "info = \<lparr>sn_DocID = demo_doc, sn_ServerSeq = 2, sn_Snapshot = [1, 2]\<rparr>"
    by simp
  have lt: "sn_ServerSeq info < 4"
    by (simp add: info)
  from r lt k d g cs ap rt
  have c: "pullSnapshot demo_env ?be' (demo_clientInfo DocumentAttached 0 0) (demo_docInfo 5)
      (demo_pack 0) ?cp 4 = Inr (\<lparr>cp_ServerSeq = 5, cp_ClientSeq = 0\<rparr>, [1, 2, 3, 4])"
    unfolding info cp [symmetric] by simp
  from e f a b c show ?thesis
    by blast
qed

lemma one_le_word: "(1 \<le> x) = (0 < x)" for x :: uint64
  using inc_less_eq_iff [of 0 x] by simp

text \<open>
  C8. For a document with no snapshot row, \<open>FindLastSnapshotInfo\<close> returns, without
  error, the snapshot info with ServerSeq 0 and empty bytes; and on the snapshot path
  (where initialServerSeq is positive) the document is rebuilt from that empty snapshot
  at serverSeq 0 by applying all the persisted changes with serverSeq in
  [1, initialServerSeq], whenever each step of the rebuild succeeds.
\<close>

theorem pullSnapshot_without_snapshot:
  assumes enc: "encodeID env (di_ID docInfo) = Some enc"
    and f1: "fault env Snapshots_FindOne = None"
    and none: "\<forall>r\<in>set (snapshots (DB be)). sr_doc_id r \<noteq> enc"
  shows "FindLastSnapshotInfo env (DB be) (di_ID docInfo) = Inr zero_SnapshotInfo \<and>
     sn_ServerSeq zero_SnapshotInfo = 0 \<and> sn_Snapshot zero_SnapshotInfo = [] \<and>
     (0 < initialServerSeq \<longrightarrow>
        (\<forall>docKey doc cs doc' snapshot.
            GetKey env docInfo = Inr docKey \<and>
            NewInternalDocumentFromSnapshot env (Collection docKey) (Document docKey) 0 []
              = Some doc \<and>
            fault env Changes_Find = None \<and> fault env Changes_All = None \<and>
            to_changes env (map (decode_ChangeInfo env)
              (filter (\<lambda>r. cr_doc_id r = enc \<and> 1 \<le> cr_server_seq r \<and>
                            cr_server_seq r \<le> initialServerSeq) (changes (DB be)))) = Inr cs \<and>
            ApplyChangePack env doc
              (NewPack docKey (NextServerSeq Initial (di_ServerSeq docInfo)) cs []) = Some doc' \<and>
            RootObjectToBytes env doc' = Some snapshot \<longrightarrow>
            pullSnapshot env be clientInfo docInfo pack pushedCP initialServerSeq =
              Inr (NextServerSeq pushedCP (di_ServerSeq docInfo), snapshot)))"
proof -
  have found: "FindLastSnapshotInfo env (DB be) (di_ID docInfo) = Inr zero_SnapshotInfo"
    using enc f1 none by (rule FindLastSnapshotInfo_none)
  have z: "sn_ServerSeq zero_SnapshotInfo = 0" "sn_Snapshot zero_SnapshotInfo = []"
    by (simp_all add: zero_SnapshotInfo_def)
  have rows: "changes_in (DB be) enc 0 initialServerSeq =
      filter (\<lambda>r. cr_doc_id r = enc \<and> 1 \<le> cr_server_seq r \<and> cr_server_seq r \<le> initialServerSeq)
        (changes (DB be))"
    by (simp add: changes_in_def one_le_word)
  have "0 < initialServerSeq \<longrightarrow>
        (\<forall>docKey doc cs doc' snapshot.
            GetKey env docInfo = Inr docKey \<and>
            NewInternalDocumentFromSnapshot env (Collection docKey) (Document docKey) 0 []
              = Some doc \<and>
            fault env Changes_Find = None \<and> fault env Changes_All = None \<and>
            to_changes env (map (decode_ChangeInfo env)
              (changes_in (DB be) enc 0 initialServerSeq)) = Inr cs \<and>
            ApplyChangePack env doc
              (NewPack docKey (NextServerSeq Initial (di_ServerSeq docInfo)) cs []) = Some doc' \<and>
            RootObjectToBytes env doc' = Some snapshot \<longrightarrow>
            pullSnapshot env be clientInfo docInfo pack pushedCP initialServerSeq =
              Inr (NextServerSeq pushedCP (di_ServerSeq docInfo), snapshot))"
    using pullSnapshot_rebuild [OF found _ enc] unfolding z by blast
  with found z show ?thesis
    unfolding rows by blast
qed

theorem pullSnapshot_without_snapshot_witness:
  "encodeID demo_env (di_ID (demo_docInfo 3)) = Some (ObjectID demo_doc) \<and>
   fault demo_env Snapshots_FindOne = None \<and>
   FindLastSnapshotInfo demo_env (demo_store\<lparr>snapshots := []\<rparr>) (di_ID (demo_docInfo 3)) =
     Inr zero_SnapshotInfo \<and>
   pullSnapshot demo_env \<lparr>SnapshotThreshold = 2, DB = demo_store\<lparr>snapshots := []\<rparr>\<rparr>
     (demo_clientInfo DocumentAttached 0 0) (demo_docInfo 3) (demo_pack 0)
     \<lparr>cp_ServerSeq = 0, cp_ClientSeq = 0\<rparr> 3 =
     Inr (\<lparr>cp_ServerSeq = 3, cp_ClientSeq = 0\<rparr>, [1, 2, 3])"
proof -
  let ?be = "\<lparr>SnapshotThreshold = 2, DB = demo_store\<lparr>snapshots := []\<rparr>\<rparr>"
  let ?cp = "\<lparr>cp_ServerSeq = 0, cp_ClientSeq = 0\<rparr>"
  have e: "encodeID demo_env (di_ID (demo_docInfo 3)) = Some (ObjectID demo_doc)"
    by (simp add: demo_defs)
  have f: "fault demo_env Snapshots_FindOne = None"
    by (simp add: demo_defs)
  have n: "\<forall>r\<in>set (snapshots (DB ?be)). sr_doc_id r \<noteq> ObjectID demo_doc"
    by simp
  have k: "GetKey demo_env (demo_docInfo 3) = Inr demo_key"
    by (simp add: GetKey_def demo_defs)
  have d: "NewInternalDocumentFromSnapshot demo_env (Collection demo_key) (Document demo_key)
      0 [] = Some []"
    by (simp add: demo_env_def)
  have g: "fault demo_env Changes_Find = None" "fault demo_env Changes_All = None"
    by (simp_all add: demo_defs)
  have cs: "to_changes demo_env (map (decode_ChangeInfo demo_env)
      (filter (\<lambda>r. cr_doc_id r = ObjectID demo_doc \<and> 1 \<le> cr_server_seq r \<and>
                    cr_server_seq r \<le> 3) (changes (DB ?be)))) =
      Inr [demo_Change 1, demo_Change 2, demo_Change 3]"
    by (simp add: decode_ChangeInfo_def demo_defs word_less_nat_alt word_le_nat_alt)
  have ap: "ApplyChangePack demo_env []
      (NewPack demo_key (NextServerSeq Initial (di_ServerSeq (demo_docInfo 3)))
         [demo_Change 1, demo_Change 2, demo_Change 3] []) = Some [1, 2, 3]"
    by (simp add: NewPack_def demo_env_def demo_Change_def)
  have rt: "RootObjectToBytes demo_env [1, 2, 3] = Some [1, 2, 3]"
    by (simp add: demo_env_def)
  have cp: "NextServerSeq ?cp (di_ServerSeq (demo_docInfo 3)) = \<lparr>cp_ServerSeq = 3, cp_ClientSeq = 0\<rparr>"
    by (simp add: NextServerSeq_def demo_docInfo_def)
  note t = pullSnapshot_without_snapshot [OF e f n, where initialServerSeq = 3
      and clientInfo = "demo_clientInfo DocumentAttached 0 0" and pack = "demo_pack 0"
      and pushedCP = ?cp]
  from t have a: "FindLastSnapshotInfo demo_env (demo_store\<lparr>snapshots := []\<rparr>)
      (di_ID (demo_docInfo 3)) = Inr zero_SnapshotInfo"
    by simp
  have pos: "(0 :: uint64) < 3"
    by simp
  from t pos k d g cs ap rt
  have b: "pullSnapshot demo_env ?be (demo_clientInfo DocumentAttached 0 0) (demo_docInfo 3)
      (demo_pack 0) ?cp 3 = Inr (\<lparr>cp_ServerSeq = 3, cp_ClientSeq = 0\<rparr>, [1, 2, 3])"
    unfolding cp [symmetric] by blast
  from e f a b show ?thesis
    by blast
qed

text \<open>
  When no snapshot of the document is newer than initialServerSeq, and the store answers,
  the code and the snapshot path as the specification words it agree.
\<close>

lemma pullSnapshot_as_claimed:
  assumes enc: "encodeID env (di_ID docInfo) = Some enc"
    and f1: "fault env Snapshots_FindOne = None" and f2: "fault env Snapshots_Decode = None"
    and f3: "fault env Changes_Find = None" and f4: "fault env Changes_All = None"
    and bound: "\<forall>r\<in>set (snapshots (DB be)). sr_doc_id r = enc \<longrightarrow> sr_server_seq r \<le> initialServerSeq"
  shows "pullSnapshot env be clientInfo docInfo pack pushedCP initialServerSeq =
         claimed_pullSnapshot env be clientInfo docInfo pack pushedCP initialServerSeq"
proof -
  let ?sel = "case FindOneSorted None
                     (\<lambda>r. sr_doc_id r = enc \<and> sr_server_seq r \<le> initialServerSeq)
                     (\<lambda>a b. sr_server_seq b < sr_server_seq a) (snapshots (DB be)) of
                Found r \<Rightarrow> decode_SnapshotInfo env r
              | _ \<Rightarrow> zero_SnapshotInfo"
  have filt: "filter (\<lambda>r. sr_doc_id r = enc \<and> sr_server_seq r \<le> initialServerSeq)
      (snapshots (DB be)) = filter (\<lambda>r. sr_doc_id r = enc) (snapshots (DB be))"
    using bound by (intro filter_cong) auto
  have "\<exists>info. FindLastSnapshotInfo env (DB be) (di_ID docInfo) = Inr info \<and>
      sn_ServerSeq info \<le> initialServerSeq \<and> ?sel = info"
  proof (cases "filter (\<lambda>r. sr_doc_id r = enc) (snapshots (DB be))")
    case Nil
    with enc f1 filt show ?thesis
      by (simp add: FindLastSnapshotInfo_def FindOneSorted_def zero_SnapshotInfo_def)
  next
    case (Cons r rs)
    define best where "best = pick (\<lambda>a b. sr_server_seq b < sr_server_seq a) r rs"
    have "best \<in> set (r # rs)"
      unfolding best_def by (rule pick_mem)
    then have "best \<in> set (filter (\<lambda>r. sr_doc_id r = enc) (snapshots (DB be)))"
      by (simp only: Cons)
    with bound have "sr_server_seq best \<le> initialServerSeq"
      by simp
    with enc f1 f2 filt Cons show ?thesis
      by (simp add: FindLastSnapshotInfo_def FindOneSorted_def decode_SnapshotInfo_def best_def)
  qed
  then obtain info where found: "FindLastSnapshotInfo env (DB be) (di_ID docInfo) = Inr info"
    and le: "sn_ServerSeq info \<le> initialServerSeq" and sel: "?sel = info"
    by blast
  show ?thesis
  proof (cases "sn_ServerSeq info = initialServerSeq")
    case True
    with enc found sel show ?thesis
      by (simp add: pullSnapshot_def claimed_pullSnapshot_def)
  next
    case False
    with le have lt: "sn_ServerSeq info < initialServerSeq"
      by simp
    then have "sn_ServerSeq info \<noteq> - 1"
      by (rule less_not_max)
    with enc f3 f4
    have "FindChangesBetweenServerSeqs env (DB be) (di_ID docInfo) (sn_ServerSeq info + 1)
            initialServerSeq =
          to_changes env (map (decode_ChangeInfo env)
            (changes_in (DB be) enc (sn_ServerSeq info) initialServerSeq))"
      by (rule FindChanges_range)
    with enc found sel False lt show ?thesis
      by (simp add: pullSnapshot_def claimed_pullSnapshot_def not_le [symmetric]
          cong: sum.case_cong option.case_cong)
  qed
qed

section \<open>Properties of the store client\<close>

subsection \<open>FindClientInfoByID\<close>

text \<open>
  C10. \<open>FindClientInfoByID\<close> returns an error only when the id cannot be encoded
  (\<open>ErrInvalidID\<close>) or when the find answers, without a driver error, that no client has
  the id (\<open>ErrClientNotFound\<close>). When the fetched record fails to decode it returns no
  error together with the partially decoded \<open>ClientInfo\<close>, and when the find itself fails
  with a driver error it returns no error together with the zero \<open>ClientInfo\<close>.
\<close>

theorem FindClientInfoByID_errors:
  "(FindClientInfoByID env db clientID = Inl e \<longleftrightarrow>
      encodeID env clientID = None \<and> e = ErrInvalidID \<or>
      (\<exists>enc. encodeID env clientID = Some enc \<and> fault env Clients_FindOne = None \<and>
         (\<forall>r\<in>set (clients db). cl_id r \<noteq> enc) \<and> e = ErrClientNotFound)) \<and>
   (\<forall>enc r m. encodeID env clientID = Some enc \<and> fault env Clients_FindOne = None \<and>
        find (\<lambda>r. cl_id r = enc) (clients db) = Some r \<and> fault env Clients_Decode = Some m \<longrightarrow>
        FindClientInfoByID env db clientID = Inr (partialClientInfo env r)) \<and>
   (\<forall>enc m. encodeID env clientID = Some enc \<and> fault env Clients_FindOne = Some m \<longrightarrow>
        FindClientInfoByID env db clientID = Inr zero_ClientInfo)"
proof (intro conjI allI impI)
  show "FindClientInfoByID env db clientID = Inl e \<longleftrightarrow>
      encodeID env clientID = None \<and> e = ErrInvalidID \<or>
      (\<exists>enc. encodeID env clientID = Some enc \<and> fault env Clients_FindOne = None \<and>
         (\<forall>r\<in>set (clients db). cl_id r \<noteq> enc) \<and> e = ErrClientNotFound)"
    by (auto simp: FindClientInfoByID_def FindOne_def find_None_iff_set
        dest: find_Some_D split: option.splits single_result.splits)
next
  fix enc r m
  assume "encodeID env clientID = Some enc \<and> fault env Clients_FindOne = None \<and>
        find (\<lambda>r. cl_id r = enc) (clients db) = Some r \<and> fault env Clients_Decode = Some m"
  then show "FindClientInfoByID env db clientID = Inr (partialClientInfo env r)"
    by (simp add: FindClientInfoByID_def FindOne_def)
next
  fix enc m
  assume "encodeID env clientID = Some enc \<and> fault env Clients_FindOne = Some m"
  then show "FindClientInfoByID env db clientID = Inr zero_ClientInfo"
    by (simp add: FindClientInfoByID_def FindOne_def)
qed

theorem FindClientInfoByID_errors_witness:
  "FindClientInfoByID demo_env demo_store ''b2'' = Inl ErrInvalidID \<and>
   FindClientInfoByID demo_env demo_store demo_A = Inl ErrClientNotFound \<and>
   FindClientInfoByID (demo_env\<lparr>fault := (\<lambda>c. if c = Clients_Decode then Some ''decode'' else None)\<rparr>)
     demo_store demo_B = Inr zero_ClientInfo \<and>
   FindClientInfoByID (demo_env\<lparr>fault := (\<lambda>c. if c = Clients_FindOne then Some ''timeout'' else None)\<rparr>)
     demo_store demo_B = Inr zero_ClientInfo"
proof -
  let ?decode = "demo_env\<lparr>fault := (\<lambda>c. if c = Clients_Decode then Some ''decode'' else None)\<rparr>"
  let ?find = "demo_env\<lparr>fault := (\<lambda>c. if c = Clients_FindOne then Some ''timeout'' else None)\<rparr>"
  have a: "FindClientInfoByID demo_env demo_store ''b2'' = Inl ErrInvalidID"
    using FindClientInfoByID_errors [of demo_env demo_store "''b2''" ErrInvalidID]
    by (simp add: demo_env_def)
  have b: "FindClientInfoByID demo_env demo_store demo_A = Inl ErrClientNotFound"
    using FindClientInfoByID_errors [of demo_env demo_store demo_A ErrClientNotFound]
    by (simp add: demo_defs)
  have row: "find (\<lambda>r. cl_id r = ObjectID demo_B) (clients demo_store) =
      Some (demo_client_row DocumentAttached 3 1)"
    by (simp add: demo_store_def demo_client_row_def)
  have c: "FindClientInfoByID ?decode demo_store demo_B = Inr zero_ClientInfo"
    using FindClientInfoByID_errors [of ?decode demo_store demo_B] row
    by (simp add: demo_env_def demo_B_def)
  have d: "FindClientInfoByID ?find demo_store demo_B = Inr zero_ClientInfo"
    using FindClientInfoByID_errors [of ?find demo_store demo_B]
    by (simp add: demo_env_def demo_B_def)
  from a b c d show ?thesis
    by blast
qed

subsection \<open>UpdateClientInfoAfterPushPull\<close>

lemma find_update_first_same:
  assumes "\<And>r. p (f r) = p r" and "update_first p f rs = Some rs'"
  shows "find p rs' = map_option f (find p rs)"
  using assms(2)
proof (induction rs arbitrary: rs')
  case Nil
  then show ?case by simp
next
  case (Cons a rs)
  show ?case
  proof (cases "p a")
    case True
    with Cons.prems have "rs' = f a # rs" by simp
    with True assms(1) show ?thesis by simp
  next
    case False
    with Cons.prems obtain rs'' where u: "update_first p f rs = Some rs''" and r: "rs' = a # rs''"
      by auto
    from Cons.IH [OF u] False r show ?thesis by simp
  qed
qed

lemma find_update_first_other:
  assumes "\<And>r. p r \<Longrightarrow> \<not> q r \<and> \<not> q (f r)" and "update_first p f rs = Some rs'"
  shows "find q rs' = find q rs"
  using assms(2)
proof (induction rs arbitrary: rs')
  case Nil
  then show ?case by simp
next
  case (Cons a rs)
  show ?case
  proof (cases "p a")
    case True
    with Cons.prems have "rs' = f a # rs" by simp
    with True assms(1) [of a] show ?thesis by simp
  next
    case False
    with Cons.prems obtain rs'' where u: "update_first p f rs = Some rs''" and r: "rs' = a # rs''"
      by auto
    from Cons.IH [OF u] r show ?thesis by simp
  qed
qed

lemma update_first_Some_find:
  assumes "update_first p f rs = Some rs'"
  shows "\<exists>r. find p rs = Some r"
proof (cases "find p rs")
  case None
  then have "update_first p f rs = None"
    unfolding find_None_iff_set update_first_None_iff .
  with assms show ?thesis by simp
next
  case (Some r)
  then show ?thesis by blast
qed

lemma max_updater_key: "cl_key (max_updater d g t r) = cl_key r"
  by (simp add: max_updater_def)

lemma set_updater_key: "cl_key (set_updater d g t r) = cl_key r"
  by (simp add: set_updater_def)

lemma UpdateClientInfo_cases:
  assumes "UpdateClientInfoAfterPushPull env db clientInfo docInfo = (db', err)"
  shows "(err \<noteq> None \<and> db' = db) \<or>
         (\<exists>given attached rows. err = None \<and>
            ci_Documents clientInfo (di_ID docInfo) = Some given \<and>
            IsAttached clientInfo (di_ID docInfo) = Inr attached \<and>
            update_first (\<lambda>r. cl_key r = ci_Key clientInfo)
              (if attached
               then max_updater (di_ID docInfo) given (ci_UpdatedAt clientInfo)
               else set_updater (di_ID docInfo) given (ci_UpdatedAt clientInfo))
              (clients db) = Some rows \<and>
            db' = db\<lparr>clients := rows\<rparr>)"
  using assms
  by (auto simp: UpdateClientInfoAfterPushPull_def Let_def
      split: option.splits sum.splits if_splits)

lemma persisted_seqs_updated:
  assumes p: "\<And>r. cl_key (f r) = cl_key r"
    and u: "update_first (\<lambda>r. cl_key r = k) f (clients db) = Some rows"
  shows "\<exists>r. find (\<lambda>r. cl_key r = k) (clients db) = Some r \<and>
           persisted_seqs (db\<lparr>clients := rows\<rparr>) k d =
             map_option (\<lambda>x. (cd_ServerSeq x, cd_ClientSeq x)) (cl_documents (f r) d)"
proof -
  from update_first_Some_find [OF u] obtain r where
    r: "find (\<lambda>r. cl_key r = k) (clients db) = Some r" by blast
  have "find (\<lambda>r. cl_key r = k) rows = map_option f (find (\<lambda>r. cl_key r = k) (clients db))"
    by (rule find_update_first_same [OF _ u]) (simp add: p)
  with r show ?thesis
    by (simp add: persisted_seqs_def)
qed

lemma persisted_seqs_other_key:
  assumes p: "\<And>r. cl_key (f r) = cl_key r" and "k' \<noteq> k"
    and u: "update_first (\<lambda>r. cl_key r = k) f (clients db) = Some rows"
  shows "persisted_seqs (db\<lparr>clients := rows\<rparr>) k' d = persisted_seqs db k' d"
proof -
  have "find (\<lambda>r. cl_key r = k') rows = find (\<lambda>r. cl_key r = k') (clients db)"
    by (rule find_update_first_other [OF _ u]) (use assms(2) in \<open>auto simp: p\<close>)
  then show ?thesis
    by (simp add: persisted_seqs_def)
qed

lemma UpdateClientInfo_attached:
  assumes att: "IsAttached clientInfo (di_ID docInfo) = Inr True"
    and res: "UpdateClientInfoAfterPushPull env db clientInfo docInfo = (db', None)"
  shows "\<exists>given. ci_Documents clientInfo (di_ID docInfo) = Some given \<and>
           persisted_seqs db' (ci_Key clientInfo) (di_ID docInfo) =
             Some (case persisted_seqs db (ci_Key clientInfo) (di_ID docInfo) of
                     None \<Rightarrow> (cd_ServerSeq given, cd_ClientSeq given)
                   | Some (s, c) \<Rightarrow>
                       (max s (cd_ServerSeq given), max c (cd_ClientSeq given)))"
proof -
  from UpdateClientInfo_cases [OF res] att obtain given rows where
    g: "ci_Documents clientInfo (di_ID docInfo) = Some given" and
    u: "update_first (\<lambda>r. cl_key r = ci_Key clientInfo)
          (max_updater (di_ID docInfo) given (ci_UpdatedAt clientInfo)) (clients db) = Some rows" and
    d: "db' = db\<lparr>clients := rows\<rparr>"
    by auto
  from persisted_seqs_updated [OF max_updater_key u, of "di_ID docInfo"] obtain r where
    r: "find (\<lambda>r. cl_key r = ci_Key clientInfo) (clients db) = Some r" and
    n: "persisted_seqs (db\<lparr>clients := rows\<rparr>) (ci_Key clientInfo) (di_ID docInfo) =
          map_option (\<lambda>x. (cd_ServerSeq x, cd_ClientSeq x))
            (cl_documents (max_updater (di_ID docInfo) given (ci_UpdatedAt clientInfo) r)
               (di_ID docInfo))"
    by blast
  from r have o: "persisted_seqs db (ci_Key clientInfo) (di_ID docInfo) =
      map_option (\<lambda>x. (cd_ServerSeq x, cd_ClientSeq x)) (cl_documents r (di_ID docInfo))"
    by (simp add: persisted_seqs_def)
  from g show ?thesis
    unfolding d n o by (cases "cl_documents r (di_ID docInfo)") (simp_all add: max_updater_def)
qed

lemma UpdateClientInfo_detached:
  assumes det: "IsAttached clientInfo (di_ID docInfo) = Inr False"
    and res: "UpdateClientInfoAfterPushPull env db clientInfo docInfo = (db', None)"
  shows "persisted_seqs db' (ci_Key clientInfo) (di_ID docInfo) = Some (0, 0)"
proof -
  from UpdateClientInfo_cases [OF res] det obtain given rows where
    u: "update_first (\<lambda>r. cl_key r = ci_Key clientInfo)
          (set_updater (di_ID docInfo) given (ci_UpdatedAt clientInfo)) (clients db) = Some rows" and
    d: "db' = db\<lparr>clients := rows\<rparr>"
    by auto
  from persisted_seqs_updated [OF set_updater_key u, of "di_ID docInfo"] show ?thesis
    unfolding d by (auto simp: set_updater_def)
qed

lemma UpdateClientInfo_other:
  assumes "k \<noteq> ci_Key clientInfo \<or> d \<noteq> di_ID docInfo"
    and res: "UpdateClientInfoAfterPushPull env db clientInfo docInfo = (db', err)"
  shows "persisted_seqs db' k d = persisted_seqs db k d"
proof -
  from UpdateClientInfo_cases [OF res] consider "db' = db"
    | given attached rows where
      "update_first (\<lambda>r. cl_key r = ci_Key clientInfo)
          (if attached
           then max_updater (di_ID docInfo) given (ci_UpdatedAt clientInfo)
           else set_updater (di_ID docInfo) given (ci_UpdatedAt clientInfo))
          (clients db) = Some rows" and "db' = db\<lparr>clients := rows\<rparr>"
    by blast
  then show ?thesis
  proof cases
    case 1
    then show ?thesis by simp
  next
    case 2
    let ?f = "if attached
           then max_updater (di_ID docInfo) given (ci_UpdatedAt clientInfo)
           else set_updater (di_ID docInfo) given (ci_UpdatedAt clientInfo)"
    have key: "cl_key (?f r) = cl_key r" for r
      by (simp add: max_updater_key set_updater_key)
    show ?thesis
    proof (cases "k = ci_Key clientInfo")
      case False
      from persisted_seqs_other_key [OF key False 2(1)] 2(2) show ?thesis
        by simp
    next
      case True
      with assms(1) have nd: "d \<noteq> di_ID docInfo" by simp
      from persisted_seqs_updated [OF key 2(1), of d] obtain r where
        r: "find (\<lambda>r. cl_key r = ci_Key clientInfo) (clients db) = Some r" and
        n: "persisted_seqs (db\<lparr>clients := rows\<rparr>) (ci_Key clientInfo) d =
              map_option (\<lambda>x. (cd_ServerSeq x, cd_ClientSeq x)) (cl_documents (?f r) d)"
        by blast
      from nd have "cl_documents (?f r) d = cl_documents r d"
        by (simp add: max_updater_def set_updater_def)
      with r n True 2(2) show ?thesis
        by (simp add: persisted_seqs_def)
    qed
  qed
qed

lemma UpdateClientInfo_step_monotone:
  assumes stay: "ci_Key clientInfo = k \<and> di_ID docInfo = d \<longrightarrow> IsAttached clientInfo d = Inr True"
    and start: "persisted_seqs db k d = Some (s, c)"
  shows "\<exists>s' c'. persisted_seqs (fst (UpdateClientInfoAfterPushPull env db clientInfo docInfo)) k d
                    = Some (s', c') \<and> s \<le> s' \<and> c \<le> c'"
proof -
  obtain db' err where res: "UpdateClientInfoAfterPushPull env db clientInfo docInfo = (db', err)"
    by (cases "UpdateClientInfoAfterPushPull env db clientInfo docInfo")
  show ?thesis
  proof (cases "ci_Key clientInfo = k \<and> di_ID docInfo = d")
    case False
    then have "k \<noteq> ci_Key clientInfo \<or> d \<noteq> di_ID docInfo" by blast
    from UpdateClientInfo_other [OF this res] start res show ?thesis
      by simp
  next
    case True
    with stay have att: "IsAttached clientInfo (di_ID docInfo) = Inr True" by simp
    show ?thesis
    proof (cases err)
      case None
      from UpdateClientInfo_attached [OF att res [unfolded None]]
      obtain given :: ClientDocInfo where
        g: "persisted_seqs db' (ci_Key clientInfo) (di_ID docInfo) =
             Some (case persisted_seqs db (ci_Key clientInfo) (di_ID docInfo) of
                     None \<Rightarrow> (cd_ServerSeq given, cd_ClientSeq given)
                   | Some (s, c) \<Rightarrow>
                       (max s (cd_ServerSeq given), max c (cd_ClientSeq given)))"
        by blast
      from g True start
      have "persisted_seqs db' k d = Some (max s (cd_ServerSeq given), max c (cd_ClientSeq given))"
        by simp
      with res show ?thesis by simp
    next
      case (Some e)
      with UpdateClientInfo_cases [OF res] have "db' = db" by auto
      with res start show ?thesis by simp
    qed
  qed
qed

lemma after_calls_monotone:
  assumes "\<forall>(clientInfo, docInfo)\<in>set calls.
             ci_Key clientInfo = k \<and> di_ID docInfo = d \<longrightarrow> IsAttached clientInfo d = Inr True"
    and "persisted_seqs db k d = Some (s, c)"
  shows "\<exists>s' c'. persisted_seqs (after_calls env db calls) k d = Some (s', c') \<and> s \<le> s' \<and> c \<le> c'"
  using assms
proof (induction calls arbitrary: db s c)
  case Nil
  then show ?case by simp
next
  case (Cons call calls)
  obtain clientInfo docInfo where call: "call = (clientInfo, docInfo)"
    by (cases call)
  let ?db = "fst (UpdateClientInfoAfterPushPull env db clientInfo docInfo)"
  from Cons.prems(1) call
  have "ci_Key clientInfo = k \<and> di_ID docInfo = d \<longrightarrow> IsAttached clientInfo d = Inr True"
    by simp
  from UpdateClientInfo_step_monotone [OF this Cons.prems(2)] obtain s1 c1 where
    one: "persisted_seqs ?db k d = Some (s1, c1)" and le1: "s \<le> s1" "c \<le> c1"
    by blast
  from Cons.prems(1) have rest: "\<forall>(clientInfo, docInfo)\<in>set calls.
             ci_Key clientInfo = k \<and> di_ID docInfo = d \<longrightarrow> IsAttached clientInfo d = Inr True"
    by simp
  from Cons.IH [OF rest one] obtain s' c' where
    "persisted_seqs (after_calls env ?db calls) k d = Some (s', c')" and "s1 \<le> s'" "c1 \<le> c'"
    by blast
  with le1 call show ?case
    by (auto intro: order_trans)
qed

text \<open>
  C9. For a client whose row holds values (s, c) for a document, and who is attached to
  the document in each of its calls for it: after any sequence of calls of
  \<open>UpdateClientInfoAfterPushPull\<close> (of this or other clients, succeeding or failing) the
  persisted server_seq and client_seq are at least s and c; and a successful call of the
  attached client leaves exactly the maximum of the stored and the given value in each.
\<close>

theorem UpdateClientInfoAfterPushPull_monotone:
  assumes "\<forall>(clientInfo, docInfo)\<in>set calls.
             ci_Key clientInfo = k \<and> di_ID docInfo = d \<longrightarrow> IsAttached clientInfo d = Inr True"
    and "persisted_seqs db k d = Some (s, c)"
  shows "(\<exists>s' c'. persisted_seqs (after_calls env db calls) k d = Some (s', c') \<and>
            s \<le> s' \<and> c \<le> c') \<and>
         (\<forall>clientInfo docInfo db'.
            ci_Key clientInfo = k \<and> di_ID docInfo = d \<and> IsAttached clientInfo d = Inr True \<and>
            UpdateClientInfoAfterPushPull env db clientInfo docInfo = (db', None) \<longrightarrow>
            (\<exists>given. ci_Documents clientInfo d = Some given \<and>
               persisted_seqs db' k d =
                 Some (max s (cd_ServerSeq given), max c (cd_ClientSeq given))))"
proof (intro conjI allI impI)
  show "\<exists>s' c'. persisted_seqs (after_calls env db calls) k d = Some (s', c') \<and> s \<le> s' \<and> c \<le> c'"
    using assms by (rule after_calls_monotone)
next
  fix clientInfo docInfo db'
  assume a: "ci_Key clientInfo = k \<and> di_ID docInfo = d \<and> IsAttached clientInfo d = Inr True \<and>
            UpdateClientInfoAfterPushPull env db clientInfo docInfo = (db', None)"
  then have att: "IsAttached clientInfo (di_ID docInfo) = Inr True"
    and res: "UpdateClientInfoAfterPushPull env db clientInfo docInfo = (db', None)"
    by simp_all
  from UpdateClientInfo_attached [OF att res] obtain given where
    g: "ci_Documents clientInfo (di_ID docInfo) = Some given"
       "persisted_seqs db' (ci_Key clientInfo) (di_ID docInfo) =
             Some (case persisted_seqs db (ci_Key clientInfo) (di_ID docInfo) of
                     None \<Rightarrow> (cd_ServerSeq given, cd_ClientSeq given)
                   | Some (s, c) \<Rightarrow>
                       (max s (cd_ServerSeq given), max c (cd_ClientSeq given)))"
    by blast
  from g a assms(2)
  have "ci_Documents clientInfo d = Some given \<and>
           persisted_seqs db' k d = Some (max s (cd_ServerSeq given), max c (cd_ClientSeq given))"
    by simp
  then show "\<exists>given. ci_Documents clientInfo d = Some given \<and>
           persisted_seqs db' k d = Some (max s (cd_ServerSeq given), max c (cd_ClientSeq given))"
    by blast
qed

theorem UpdateClientInfoAfterPushPull_monotone_witness:
  "persisted_seqs demo_store ''client-b'' demo_doc = Some (3, 1) \<and>
   IsAttached (demo_clientInfo DocumentAttached 2 5) demo_doc = Inr True \<and>
   persisted_seqs
     (after_calls demo_env demo_store [(demo_clientInfo DocumentAttached 2 5, demo_docInfo 5)])
     ''client-b'' demo_doc = Some (3, 5)"
proof -
  let ?ci = "demo_clientInfo DocumentAttached 2 5"
  let ?di = "demo_docInfo 5"
  have start: "persisted_seqs demo_store ''client-b'' demo_doc = Some (3, 1)"
    by (simp add: persisted_seqs_def demo_store_def demo_client_row_def)
  have att: "IsAttached ?ci demo_doc = Inr True"
    by (simp add: IsAttached_def demo_clientInfo_def)
  have stay: "\<forall>(clientInfo, docInfo)\<in>set [(?ci, ?di)].
      ci_Key clientInfo = ''client-b'' \<and> di_ID docInfo = demo_doc \<longrightarrow>
      IsAttached clientInfo demo_doc = Inr True"
    using att by simp
  have "snd (UpdateClientInfoAfterPushPull demo_env demo_store ?ci ?di) = None"
    by (simp add: UpdateClientInfoAfterPushPull_def IsAttached_def demo_defs)
  then obtain db' where res: "UpdateClientInfoAfterPushPull demo_env demo_store ?ci ?di = (db', None)"
    by (cases "UpdateClientInfoAfterPushPull demo_env demo_store ?ci ?di") auto
  have ids: "ci_Key ?ci = ''client-b''" "di_ID ?di = demo_doc"
    by (simp_all add: demo_clientInfo_def demo_docInfo_def)
  from UpdateClientInfoAfterPushPull_monotone [OF stay start, where env = demo_env] res att ids
  obtain given :: ClientDocInfo where
    "ci_Documents ?ci demo_doc = Some given" and
    "persisted_seqs db' ''client-b'' demo_doc =
       Some (max 3 (cd_ServerSeq given), max 1 (cd_ClientSeq given))"
    by blast
  then have "persisted_seqs db' ''client-b'' demo_doc = Some (3, 5)"
    by (auto simp: demo_clientInfo_def max_def word_le_nat_alt)
  with res have "persisted_seqs (after_calls demo_env demo_store [(?ci, ?di)])
      ''client-b'' demo_doc = Some (3, 5)"
    by simp
  with start att show ?thesis
    by blast
qed

subsection \<open>The SyncedSeq row of a detached client\<close>

lemma filter_delete_first: "filter p (delete_first p rs) = tl (filter p rs)"
  by (induction rs) auto

lemma delete_first_unique:
  assumes "length (filter p rs) \<le> 1"
  shows "find p (delete_first p rs) = None"
proof -
  from assms have "tl (filter p rs) = []"
    by (cases "filter p rs") auto
  then have "filter p (delete_first p rs) = []"
    by (simp add: filter_delete_first)
  then show ?thesis
    by (simp add: find_None_iff_set filter_empty_conv)
qed

lemma UpdateAndFind_rows:
  assumes "encodeID env docID = Some ed" and "encodeID env (ci_ID clientInfo) = Some ec"
    and "IsAttached clientInfo docID = Inr att"
    and "att \<longrightarrow> fault env SyncedSeqs_UpdateOne = None"
    and "\<not> att \<longrightarrow> fault env SyncedSeqs_DeleteOne = None"
  shows "syncedseqs (fst (UpdateAndFindMinSyncedTicket env db clientInfo docID serverSeq)) =
           (if att
            then upsert_one (same_synced_key ed ec) (\<lambda>r. r\<lparr>sq_server_seq := serverSeq\<rparr>)
                   \<lparr>sq_doc_id = ed, sq_client_id = ec, sq_server_seq = serverSeq\<rparr> (syncedseqs db)
            else delete_first (same_synced_key ed ec) (syncedseqs db))"
  using assms
  by (simp add: UpdateAndFindMinSyncedTicket_def Let_def
      split: single_result.splits option.splits)

text \<open>
  C6. For a client detached from the document: a successful
  \<open>UpdateClientInfoAfterPushPull\<close> leaves server_seq = 0 and client_seq = 0 in the client's
  persisted state for the document; and \<open>UpdateAndFindMinSyncedTicket\<close>, once its
  \<open>DeleteOne\<close> has gone through, leaves no SyncedSeq row of the (document, client) pair
  (the pair has at most one row, its index being unique), whatever the function returns
  afterwards.
\<close>

theorem detached_client_reset:
  assumes "IsAttached clientInfo (di_ID docInfo) = Inr False"
  shows "(\<forall>db'. UpdateClientInfoAfterPushPull env db clientInfo docInfo = (db', None) \<longrightarrow>
            persisted_seqs db' (ci_Key clientInfo) (di_ID docInfo) = Some (0, 0)) \<and>
         (\<forall>ed ec. encodeID env (di_ID docInfo) = Some ed \<and>
            encodeID env (ci_ID clientInfo) = Some ec \<and>
            fault env SyncedSeqs_DeleteOne = None \<and>
            length (filter (same_synced_key ed ec) (syncedseqs db)) \<le> 1 \<longrightarrow>
            synced_seq (fst (UpdateAndFindMinSyncedTicket env db clientInfo (di_ID docInfo)
                               serverSeq)) ed ec = None)"
proof (intro conjI allI impI)
  fix db'
  assume "UpdateClientInfoAfterPushPull env db clientInfo docInfo = (db', None)"
  with assms show "persisted_seqs db' (ci_Key clientInfo) (di_ID docInfo) = Some (0, 0)"
    by (rule UpdateClientInfo_detached)
next
  fix ed ec
  assume a: "encodeID env (di_ID docInfo) = Some ed \<and>
            encodeID env (ci_ID clientInfo) = Some ec \<and>
            fault env SyncedSeqs_DeleteOne = None \<and>
            length (filter (same_synced_key ed ec) (syncedseqs db)) \<le> 1"
  then have "syncedseqs (fst (UpdateAndFindMinSyncedTicket env db clientInfo (di_ID docInfo)
                               serverSeq)) =
      delete_first (same_synced_key ed ec) (syncedseqs db)"
    using assms UpdateAndFind_rows [of env "di_ID docInfo" ed clientInfo ec False db serverSeq]
    by simp
  with a show "synced_seq (fst (UpdateAndFindMinSyncedTicket env db clientInfo (di_ID docInfo)
                               serverSeq)) ed ec = None"
    by (simp add: synced_seq_def delete_first_unique)
qed

theorem detached_client_reset_witness:
  "IsAttached (demo_clientInfo DocumentDetached 3 1) (di_ID (demo_docInfo 5)) = Inr False \<and>
   snd (UpdateClientInfoAfterPushPull demo_env demo_store
          (demo_clientInfo DocumentDetached 3 1) (demo_docInfo 5)) = None \<and>
   persisted_seqs
     (fst (UpdateClientInfoAfterPushPull demo_env demo_store
             (demo_clientInfo DocumentDetached 3 1) (demo_docInfo 5)))
     ''client-b'' demo_doc = Some (0, 0) \<and>
   synced_seq demo_store (ObjectID demo_doc) (ObjectID demo_B) = Some 2 \<and>
   synced_seq
     (fst (UpdateAndFindMinSyncedTicket demo_env demo_store
             (demo_clientInfo DocumentDetached 3 1) demo_doc 5))
     (ObjectID demo_doc) (ObjectID demo_B) = None"
proof -
  let ?ci = "demo_clientInfo DocumentDetached 3 1"
  let ?di = "demo_docInfo 5"
  have det: "IsAttached ?ci (di_ID ?di) = Inr False"
    by (simp add: IsAttached_def demo_clientInfo_def demo_docInfo_def)
  note t = detached_client_reset [OF det, where env = demo_env and db = demo_store
      and serverSeq = 5]
  have ok: "snd (UpdateClientInfoAfterPushPull demo_env demo_store ?ci ?di) = None"
    by (simp add: UpdateClientInfoAfterPushPull_def IsAttached_def demo_defs)
  then obtain db' where res: "UpdateClientInfoAfterPushPull demo_env demo_store ?ci ?di = (db', None)"
    by (cases "UpdateClientInfoAfterPushPull demo_env demo_store ?ci ?di") auto
  with t have "persisted_seqs db' (ci_Key ?ci) (di_ID ?di) = Some (0, 0)"
    by blast
  with res have a: "persisted_seqs (fst (UpdateClientInfoAfterPushPull demo_env demo_store ?ci ?di))
      ''client-b'' demo_doc = Some (0, 0)"
    by (simp add: demo_clientInfo_def demo_docInfo_def)
  have before: "synced_seq demo_store (ObjectID demo_doc) (ObjectID demo_B) = Some 2"
    by (simp add: synced_seq_def same_synced_key_def demo_store_def demo_synced_def demo_A_def
        demo_B_def)
  have h: "encodeID demo_env (di_ID ?di) = Some (ObjectID demo_doc) \<and>
      encodeID demo_env (ci_ID ?ci) = Some (ObjectID demo_B) \<and>
      fault demo_env SyncedSeqs_DeleteOne = None \<and>
      length (filter (same_synced_key (ObjectID demo_doc) (ObjectID demo_B))
                (syncedseqs demo_store)) \<le> 1"
    by (simp add: same_synced_key_def demo_defs)
  with t have "synced_seq (fst (UpdateAndFindMinSyncedTicket demo_env demo_store ?ci (di_ID ?di) 5))
      (ObjectID demo_doc) (ObjectID demo_B) = None"
    by blast
  then have b: "synced_seq (fst (UpdateAndFindMinSyncedTicket demo_env demo_store ?ci demo_doc 5))
      (ObjectID demo_doc) (ObjectID demo_B) = None"
    by (simp add: demo_docInfo_def)
  from det ok a before b show ?thesis
    by blast
qed

subsection \<open>UpdateAndFindMinSyncedTicket\<close>

lemma find_append_none:
  assumes "\<forall>x\<in>set xs. \<not> p x"
  shows "find p (xs @ ys) = find p ys"
  using assms by (induction xs) auto

lemma find_upsert_one:
  assumes keep: "\<And>r. p (f r) = p r" and new: "p new"
  shows "find p (upsert_one p f new rs) = Some (case find p rs of None \<Rightarrow> new | Some r \<Rightarrow> f r)"
proof (cases "update_first p f rs")
  case None
  then have none: "\<forall>r\<in>set rs. \<not> p r"
    by (simp add: update_first_None_iff)
  then have "find p rs = None"
    by (simp add: find_None_iff_set)
  moreover from none new have "find p (rs @ [new]) = Some new"
    by (simp add: find_append_none)
  ultimately show ?thesis
    using None by (simp add: upsert_one_def)
next
  case (Some rs')
  from update_first_Some_find [OF Some] obtain r where r: "find p rs = Some r"
    by blast
  have "find p rs' = map_option f (find p rs)"
    by (rule find_update_first_same [OF keep Some])
  with r Some show ?thesis
    by (simp add: upsert_one_def)
qed

lemma upsert_one_other:
  assumes keep: "\<And>r. p (f r) = p r" and new: "p new" and x: "\<not> p x"
  shows "x \<in> set (upsert_one p f new rs) \<longleftrightarrow> x \<in> set rs"
proof (cases "update_first p f rs")
  case None
  with new x show ?thesis
    by (auto simp: upsert_one_def)
next
  case (Some rs')
  from update_first_Some [OF Some] obtain pre r post where
    s: "rs = pre @ r # post" "p r" "rs' = pre @ f r # post"
    by blast
  from s(2) keep have "p (f r)" by simp
  with x have "x \<noteq> f r" by blast
  moreover from s(2) x have "x \<noteq> r" by blast
  ultimately show ?thesis
    using Some s by (simp add: upsert_one_def)
qed

lemma pick_Min:
  fixes f :: "'r \<Rightarrow> 'k::linorder"
  shows "f (pick (\<lambda>a c. f a < f c) b rs) = Min (set (map f (b # rs)))"
proof (rule sym, rule Min_eqI)
  show "finite (set (map f (b # rs)))"
    by simp
next
  fix y
  assume "y \<in> set (map f (b # rs))"
  then obtain x where "x \<in> set (b # rs)" and "y = f x"
    by auto
  then show "f (pick (\<lambda>a c. f a < f c) b rs) \<le> y"
    using pick_least [of x b rs f] by simp
next
  have "pick (\<lambda>a c. f a < f c) b rs \<in> set (b # rs)"
    by (rule pick_mem)
  then show "f (pick (\<lambda>a c. f a < f c) b rs) \<in> set (map f (b # rs))"
    by (simp only: set_map image_eqI)
qed

lemma findTicketByServerSeq_change:
  assumes "encodeID env docID = Some ed"
    and "fault env Changes_FindOne = None" and "fault env Changes_Decode = None"
    and "c \<in> set (changes db)" and "cr_doc_id c = ed" and "cr_server_seq c = m"
    and "\<forall>c'\<in>set (changes db). cr_doc_id c' = ed \<and> cr_server_seq c' = m \<longrightarrow> c' = c"
    and "ActorIDFromHex env (decodeID env (cr_actor c)) = Some a"
  shows "findTicketByServerSeq env db docID m = Inr (NewTicket (cr_lamport c) MaxDelimiter a)"
proof -
  have "find (\<lambda>r. cr_doc_id r = ed \<and> cr_server_seq r = m) (changes db) = Some c"
    using assms(4-7) by (intro find_unique) blast+
  with assms(1-3,8) show ?thesis
    by (simp add: findTicketByServerSeq_def FindOne_def decode_ChangeInfo_def)
qed

lemma UpdateAndFind_result:
  assumes "encodeID env docID = Some ed" and "encodeID env (ci_ID clientInfo) = Some ec"
    and "IsAttached clientInfo docID = Inr att"
    and "att \<longrightarrow> fault env SyncedSeqs_UpdateOne = None"
    and "\<not> att \<longrightarrow> fault env SyncedSeqs_DeleteOne = None"
    and "fault env SyncedSeqs_FindOne = None" and "fault env SyncedSeqs_Decode = None"
    and "UpdateAndFindMinSyncedTicket env db clientInfo docID serverSeq = (db', res)"
  shows "res = (case min_synced_seq db' ed of
                  None \<Rightarrow> Inr InitialTicket
                | Some m \<Rightarrow>
                    if m = 0 then Inr InitialTicket else findTicketByServerSeq env db' docID m)"
proof -
  define rows where "rows =
      (if att
       then upsert_one (same_synced_key ed ec) (\<lambda>r. r\<lparr>sq_server_seq := serverSeq\<rparr>)
              \<lparr>sq_doc_id = ed, sq_client_id = ec, sq_server_seq = serverSeq\<rparr> (syncedseqs db)
       else delete_first (same_synced_key ed ec) (syncedseqs db))"
  show ?thesis
  proof (cases "filter (\<lambda>r. sq_doc_id r = ed) rows")
    case Nil
    with assms show ?thesis
      by (auto simp: UpdateAndFindMinSyncedTicket_def Let_def FindOneSorted_def
          min_synced_seq_def rows_def split: if_splits)
  next
    case (Cons r rs)
    have m: "sq_server_seq (pick (\<lambda>a b. sq_server_seq a < sq_server_seq b) r rs) =
        Min (set (map sq_server_seq (r # rs)))"
      by (rule pick_Min)
    from assms Cons show ?thesis
      by (auto simp: UpdateAndFindMinSyncedTicket_def Let_def FindOneSorted_def
          min_synced_seq_def rows_def decode_SyncedSeqInfo_def m simp del: set_map list.map
          split: if_splits)
  qed
qed

lemma UpdateAndFind_changes:
  "changes (fst (UpdateAndFindMinSyncedTicket env db clientInfo docID serverSeq)) = changes db"
  by (simp add: UpdateAndFindMinSyncedTicket_def Let_def
      split: option.splits sum.splits single_result.splits)

lemma same_synced_key_set [simp]:
  "same_synced_key ed ec (r\<lparr>sq_server_seq := n\<rparr>) = same_synced_key ed ec r"
  by (simp add: same_synced_key_def)

text \<open>
  C3. With the ids encoding, \<open>IsAttached\<close> answering and the driver calls succeeding:
  for an attached client the SyncedSeq row of the (document, client) pair holds the given
  serverSeq afterwards, for a detached client the pair has no row afterwards, and the
  rows of other pairs are the same as before; when the document then has no SyncedSeq
  row, or the minimum server_seq of its rows is 0, the result is \<open>InitialTicket\<close>;
  otherwise the result is the ticket (lamport of the change, \<open>MaxDelimiter\<close>, actor of the
  change) of the persisted change of the document whose serverSeq is that minimum.
  The (document, client) pair has at most one SyncedSeq row and the change is the only
  one with its (doc_id, server_seq), as the unique indexes have it.
\<close>

theorem UpdateAndFindMinSyncedTicket_result:
  assumes enc: "encodeID env docID = Some ed" "encodeID env (ci_ID clientInfo) = Some ec"
    and att: "IsAttached clientInfo docID = Inr att"
    and f01: "fault env SyncedSeqs_UpdateOne = None" "fault env SyncedSeqs_DeleteOne = None"
    and f02: "fault env SyncedSeqs_FindOne = None" "fault env SyncedSeqs_Decode = None"
    and f03: "fault env Changes_FindOne = None" "fault env Changes_Decode = None"
    and one: "length (filter (same_synced_key ed ec) (syncedseqs db)) \<le> 1"
    and res: "UpdateAndFindMinSyncedTicket env db clientInfo docID serverSeq = (db', res)"
  shows "(att \<longrightarrow> synced_seq db' ed ec = Some serverSeq) \<and>
     (\<not> att \<longrightarrow> synced_seq db' ed ec = None) \<and>
     (\<forall>r. \<not> same_synced_key ed ec r \<longrightarrow> (r \<in> set (syncedseqs db') \<longleftrightarrow> r \<in> set (syncedseqs db))) \<and>
     (min_synced_seq db' ed = None \<or> min_synced_seq db' ed = Some 0 \<longrightarrow> res = Inr InitialTicket) \<and>
     (\<forall>m c a. min_synced_seq db' ed = Some m \<and> m \<noteq> 0 \<and>
        c \<in> set (changes db) \<and> cr_doc_id c = ed \<and> cr_server_seq c = m \<and>
        (\<forall>c'\<in>set (changes db). cr_doc_id c' = ed \<and> cr_server_seq c' = m \<longrightarrow> c' = c) \<and>
        ActorIDFromHex env (decodeID env (cr_actor c)) = Some a \<longrightarrow>
        res = Inr (NewTicket (cr_lamport c) MaxDelimiter a))"
proof -
  from res have db': "db' = fst (UpdateAndFindMinSyncedTicket env db clientInfo docID serverSeq)"
    by simp
  have rows: "syncedseqs db' =
      (if att
       then upsert_one (same_synced_key ed ec) (\<lambda>r. r\<lparr>sq_server_seq := serverSeq\<rparr>)
              \<lparr>sq_doc_id = ed, sq_client_id = ec, sq_server_seq = serverSeq\<rparr> (syncedseqs db)
       else delete_first (same_synced_key ed ec) (syncedseqs db))"
    unfolding db' using enc att f01 by (intro UpdateAndFind_rows) simp_all
  have chg: "changes db' = changes db"
    unfolding db' by (rule UpdateAndFind_changes)
  have new: "same_synced_key ed ec \<lparr>sq_doc_id = ed, sq_client_id = ec, sq_server_seq = serverSeq\<rparr>"
    by (simp add: same_synced_key_def)
  have up: "att \<longrightarrow> synced_seq db' ed ec = Some serverSeq"
  proof
    assume att
    with rows have "find (same_synced_key ed ec) (syncedseqs db') =
        Some (case find (same_synced_key ed ec) (syncedseqs db) of
                None \<Rightarrow> \<lparr>sq_doc_id = ed, sq_client_id = ec, sq_server_seq = serverSeq\<rparr>
              | Some r \<Rightarrow> r\<lparr>sq_server_seq := serverSeq\<rparr>)"
      by (simp add: find_upsert_one new)
    then show "synced_seq db' ed ec = Some serverSeq"
      by (simp add: synced_seq_def split: option.splits)
  qed
  have del: "\<not> att \<longrightarrow> synced_seq db' ed ec = None"
    using rows one by (simp add: synced_seq_def delete_first_unique)
  have other: "\<forall>r. \<not> same_synced_key ed ec r \<longrightarrow>
      (r \<in> set (syncedseqs db') \<longleftrightarrow> r \<in> set (syncedseqs db))"
    using rows by (simp add: upsert_one_other new delete_first_other)
  have r: "res = (case min_synced_seq db' ed of
                  None \<Rightarrow> Inr InitialTicket
                | Some m \<Rightarrow>
                    if m = 0 then Inr InitialTicket else findTicketByServerSeq env db' docID m)"
    using enc att f01 f02 res by (intro UpdateAndFind_result) simp_all
  have init: "min_synced_seq db' ed = None \<or> min_synced_seq db' ed = Some 0 \<longrightarrow>
      res = Inr InitialTicket"
    using r by auto
  have tick: "\<forall>m c a. min_synced_seq db' ed = Some m \<and> m \<noteq> 0 \<and>
        c \<in> set (changes db) \<and> cr_doc_id c = ed \<and> cr_server_seq c = m \<and>
        (\<forall>c'\<in>set (changes db). cr_doc_id c' = ed \<and> cr_server_seq c' = m \<longrightarrow> c' = c) \<and>
        ActorIDFromHex env (decodeID env (cr_actor c)) = Some a \<longrightarrow>
        res = Inr (NewTicket (cr_lamport c) MaxDelimiter a)"
  proof (intro allI impI)
    fix m c a
    assume h: "min_synced_seq db' ed = Some m \<and> m \<noteq> 0 \<and>
        c \<in> set (changes db) \<and> cr_doc_id c = ed \<and> cr_server_seq c = m \<and>
        (\<forall>c'\<in>set (changes db). cr_doc_id c' = ed \<and> cr_server_seq c' = m \<longrightarrow> c' = c) \<and>
        ActorIDFromHex env (decodeID env (cr_actor c)) = Some a"
    then have "findTicketByServerSeq env db' docID m =
        Inr (NewTicket (cr_lamport c) MaxDelimiter a)"
      using enc(1) f03 by (intro findTicketByServerSeq_change [where ed = ed]) (simp_all add: chg)
    with h r show "res = Inr (NewTicket (cr_lamport c) MaxDelimiter a)"
      by simp
  qed
  from up del other init tick show ?thesis
    by blast
qed

theorem UpdateAndFindMinSyncedTicket_result_witness:
  "encodeID demo_env demo_doc = Some (ObjectID demo_doc) \<and>
   encodeID demo_env (ci_ID (demo_clientInfo DocumentAttached 3 1)) = Some (ObjectID demo_B) \<and>
   IsAttached (demo_clientInfo DocumentAttached 3 1) demo_doc = Inr True \<and>
   length (filter (same_synced_key (ObjectID demo_doc) (ObjectID demo_B))
             (syncedseqs demo_store)) \<le> 1 \<and>
   synced_seq
     (fst (UpdateAndFindMinSyncedTicket demo_env demo_store
             (demo_clientInfo DocumentAttached 3 1) demo_doc 5))
     (ObjectID demo_doc) (ObjectID demo_B) = Some 5 \<and>
   snd (UpdateAndFindMinSyncedTicket demo_env demo_store
          (demo_clientInfo DocumentAttached 3 1) demo_doc 5) =
     Inr (NewTicket 4 MaxDelimiter (ActorID demo_A)) \<and>
   snd (UpdateAndFindMinSyncedTicket demo_env (demo_store\<lparr>syncedseqs := []\<rparr>)
          (demo_clientInfo DocumentDetached 3 1) demo_doc 5) = Inr InitialTicket"
proof -
  let ?ci = "demo_clientInfo DocumentAttached 3 1"
  let ?ed = "ObjectID demo_doc"
  let ?ec = "ObjectID demo_B"
  have e: "encodeID demo_env demo_doc = Some ?ed" "encodeID demo_env (ci_ID ?ci) = Some ?ec"
    by (simp_all add: demo_defs)
  have a: "IsAttached ?ci demo_doc = Inr True"
    by (simp add: IsAttached_def demo_clientInfo_def)
  have f: "fault demo_env SyncedSeqs_UpdateOne = None" "fault demo_env SyncedSeqs_DeleteOne = None"
    "fault demo_env SyncedSeqs_FindOne = None" "fault demo_env SyncedSeqs_Decode = None"
    "fault demo_env Changes_FindOne = None" "fault demo_env Changes_Decode = None"
    by (simp_all add: demo_env_def)
  have one: "length (filter (same_synced_key ?ed ?ec) (syncedseqs demo_store)) \<le> 1"
    by (simp add: same_synced_key_def demo_defs)
  obtain db' res where
    r: "UpdateAndFindMinSyncedTicket demo_env demo_store ?ci demo_doc 5 = (db', res)"
    by (cases "UpdateAndFindMinSyncedTicket demo_env demo_store ?ci demo_doc 5")
  note t = UpdateAndFindMinSyncedTicket_result [OF e a f one r]
  from t have s: "synced_seq db' ?ed ?ec = Some 5"
    by blast
  from r have "syncedseqs db' =
      syncedseqs (fst (UpdateAndFindMinSyncedTicket demo_env demo_store ?ci demo_doc 5))"
    by simp
  also have "\<dots> = [demo_synced demo_A 4, demo_synced demo_B 5]"
    using UpdateAndFind_rows [OF e a, of demo_store 5] f
    by (simp add: same_synced_key_def upsert_one_def demo_store_def demo_synced_def
        demo_A_def demo_B_def)
  finally have m: "min_synced_seq db' ?ed = Some 4"
    by (simp add: min_synced_seq_def demo_synced_def word_le_nat_alt)
  from t have tick: "min_synced_seq db' ?ed = Some 4 \<and> (4 :: uint64) \<noteq> 0 \<and>
        demo_change 4 \<in> set (changes demo_store) \<and> cr_doc_id (demo_change 4) = ?ed \<and>
        cr_server_seq (demo_change 4) = 4 \<and>
        (\<forall>c'\<in>set (changes demo_store).
           cr_doc_id c' = ?ed \<and> cr_server_seq c' = 4 \<longrightarrow> c' = demo_change 4) \<and>
        ActorIDFromHex demo_env (decodeID demo_env (cr_actor (demo_change 4)))
          = Some (ActorID demo_A) \<longrightarrow>
        res = Inr (NewTicket (cr_lamport (demo_change 4)) MaxDelimiter (ActorID demo_A))"
    by blast
  note m
  moreover have "demo_change 4 \<in> set (changes demo_store)"
    by (simp add: demo_store_def)
  moreover have "cr_doc_id (demo_change 4) = ?ed" "cr_server_seq (demo_change 4) = 4"
    "ActorIDFromHex demo_env (decodeID demo_env (cr_actor (demo_change 4))) = Some (ActorID demo_A)"
    "cr_lamport (demo_change 4) = 4"
    by (simp_all add: demo_change_def demo_env_def demo_A_def)
  moreover have "\<forall>c'\<in>set (changes demo_store).
      cr_doc_id c' = ?ed \<and> cr_server_seq c' = 4 \<longrightarrow> c' = demo_change 4"
    by (simp add: demo_store_def demo_change_def)
  moreover have "(4 :: uint64) \<noteq> 0"
    by simp
  ultimately have "res = Inr (NewTicket 4 MaxDelimiter (ActorID demo_A))"
    using tick by presburger
  with r s have b: "synced_seq
     (fst (UpdateAndFindMinSyncedTicket demo_env demo_store ?ci demo_doc 5)) ?ed ?ec = Some 5"
    and c: "snd (UpdateAndFindMinSyncedTicket demo_env demo_store ?ci demo_doc 5) =
      Inr (NewTicket 4 MaxDelimiter (ActorID demo_A))"
    by simp_all
  have d: "snd (UpdateAndFindMinSyncedTicket demo_env (demo_store\<lparr>syncedseqs := []\<rparr>)
          (demo_clientInfo DocumentDetached 3 1) demo_doc 5) = Inr InitialTicket"
    by (simp add: UpdateAndFindMinSyncedTicket_def IsAttached_def FindOneSorted_def demo_defs)
  from e a one b c d show ?thesis
    by blast
qed

subsection \<open>StoreChangeInfos\<close>

lemma write_models_error: "write_models env ed cns = Inl e \<Longrightarrow> e = ErrEncodeOperations"
  by (induction cns) (auto split: option.splits sum.splits)

lemma write_models_rows:
  "write_models env ed cns = Inr models \<Longrightarrow>
     list_all2 (\<lambda>cn m. \<exists>ops. EncodeOperations env (ch_Operations cn) = Some ops \<and>
                          m = change_row_of env ed cn ops) cns models"
  by (induction cns arbitrary: models)
    (auto simp: change_row_of_def split: option.splits sum.splits)

lemma write_models_Inr_iff:
  "(\<exists>models. write_models env ed cns = Inr models) \<longleftrightarrow>
     (\<forall>cn\<in>set cns. EncodeOperations env (ch_Operations cn) \<noteq> None)"
  by (induction cns) (auto split: option.splits sum.splits)

lemma write_models_Nil: "write_models env ed cns = Inr models \<Longrightarrow> models = [] \<longleftrightarrow> cns = []"
  by (cases cns) (auto split: option.splits sum.splits)

lemma set_change_fields_same: "same_change_key m r \<Longrightarrow> set_change_fields m r = m"
  by (simp add: same_change_key_def set_change_fields_def)

lemma apply_model_mem: "m \<in> set (apply_model m rows)"
proof (cases "update_first (same_change_key m) (set_change_fields m) rows")
  case None
  then show ?thesis
    by (simp add: apply_model_def upsert_one_def)
next
  case (Some rows')
  from update_first_Some [OF Some] obtain pre r post where
    "same_change_key m r" and "rows' = pre @ set_change_fields m r # post"
    by blast
  with Some show ?thesis
    by (simp add: apply_model_def upsert_one_def set_change_fields_same)
qed

lemma same_change_key_set_fields:
  "same_change_key m (set_change_fields m r) = same_change_key m r"
  by (simp add: same_change_key_def set_change_fields_def)

lemma apply_model_other:
  assumes "\<not> same_change_key m x"
  shows "x \<in> set (apply_model m rows) \<longleftrightarrow> x \<in> set rows"
  unfolding apply_model_def
proof (rule upsert_one_other)
  show "same_change_key m (set_change_fields m r) = same_change_key m r" for r
    by (rule same_change_key_set_fields)
  show "same_change_key m m"
    by (simp add: same_change_key_def)
  show "\<not> same_change_key m x"
    by (rule assms)
qed

lemma fold_apply_model_keep:
  assumes "x \<in> set rows" and "\<forall>m\<in>set ms. \<not> same_change_key m x"
  shows "x \<in> set (fold apply_model ms rows)"
  using assms
proof (induction ms arbitrary: rows)
  case Nil
  then show ?case by simp
next
  case (Cons m ms)
  from Cons.prems have "x \<in> set (apply_model m rows)"
    by (simp add: apply_model_other)
  with Cons show ?case
    by simp
qed

lemma fold_apply_model_mem:
  assumes "distinct (map (\<lambda>m. (cr_doc_id m, cr_server_seq m)) ms)" and "m \<in> set ms"
  shows "m \<in> set (fold apply_model ms rows)"
  using assms
proof (induction ms arbitrary: rows)
  case Nil
  then show ?case by simp
next
  case (Cons a ms)
  show ?case
  proof (cases "m \<in> set ms")
    case True
    with Cons show ?thesis
      by simp
  next
    case False
    with Cons.prems(2) have eq: "m = a" by simp
    have "\<forall>m'\<in>set ms. \<not> same_change_key m' a"
    proof
      fix m'
      assume "m' \<in> set ms"
      with Cons.prems(1) have "(cr_doc_id a, cr_server_seq a) \<noteq> (cr_doc_id m', cr_server_seq m')"
        by (auto simp: image_iff)
      then show "\<not> same_change_key m' a"
        by (auto simp: same_change_key_def)
    qed
    with apply_model_mem [of a rows] have "a \<in> set (fold apply_model ms (apply_model a rows))"
      by (rule fold_apply_model_keep)
    with eq show ?thesis
      by simp
  qed
qed

lemma StoreChangeInfos_conflict_iff:
  "snd (StoreChangeInfos env db docInfo initialServerSeq cns) = Some ErrConflictOnUpdate \<longleftrightarrow>
     (\<exists>ed. encodeID env (di_ID docInfo) = Some ed \<and> cns \<noteq> [] \<and>
        (\<forall>cn\<in>set cns. EncodeOperations env (ch_Operations cn) \<noteq> None) \<and>
        fault env Changes_BulkWrite = None \<and> fault env Documents_UpdateOne = None \<and>
        \<not> (\<exists>r\<in>set (documents db). dc_id r = ed \<and> dc_server_seq r = initialServerSeq))"
proof (cases "encodeID env (di_ID docInfo)")
  case None
  then show ?thesis
    by (simp add: StoreChangeInfos_def)
next
  case (Some ed)
  show ?thesis
  proof (cases "write_models env ed cns")
    case (Inl e)
    then have "e = ErrEncodeOperations"
      by (rule write_models_error)
    moreover from Inl have "\<not> (\<forall>cn\<in>set cns. EncodeOperations env (ch_Operations cn) \<noteq> None)"
      unfolding write_models_Inr_iff [symmetric, where ed = ed] by simp
    ultimately show ?thesis
      using Some Inl by (simp add: StoreChangeInfos_def)
  next
    case (Inr models)
    then have all: "\<forall>cn\<in>set cns. EncodeOperations env (ch_Operations cn) \<noteq> None"
      unfolding write_models_Inr_iff [symmetric, where ed = ed] by blast
    from Inr have nil: "models = [] \<longleftrightarrow> cns = []"
      by (rule write_models_Nil)
    let ?cas = "update_first (\<lambda>r. dc_id r = ed \<and> dc_server_seq r = initialServerSeq)
        (\<lambda>r. r\<lparr>dc_server_seq := di_ServerSeq docInfo, dc_updated_at := now env\<rparr>)
        (documents db)"
    have miss: "?cas = None \<longleftrightarrow>
        \<not> (\<exists>r\<in>set (documents db). dc_id r = ed \<and> dc_server_seq r = initialServerSeq)"
      by (simp add: update_first_None_iff)
    show ?thesis
    proof (cases ?cas)
      case None
      with miss have "\<not> (\<exists>r\<in>set (documents db). dc_id r = ed \<and> dc_server_seq r = initialServerSeq)"
        by blast
      with None Some Inr all nil show ?thesis
        by (auto simp: StoreChangeInfos_def BulkWrite_def split: option.splits)
    next
      case (Some docs)
      with miss have "\<exists>r\<in>set (documents db). dc_id r = ed \<and> dc_server_seq r = initialServerSeq"
        by simp
      with Some \<open>encodeID env (di_ID docInfo) = Some ed\<close> Inr show ?thesis
        by (auto simp: StoreChangeInfos_def BulkWrite_def split: option.splits)
    qed
  qed
qed

lemma StoreChangeInfos_success:
  assumes "StoreChangeInfos env db docInfo initialServerSeq cns = (db', None)"
    and "encodeID env (di_ID docInfo) = Some ed"
  shows "\<exists>models docs. write_models env ed cns = Inr models \<and>
           changes db' = fold apply_model models (changes db) \<and>
           update_first (\<lambda>r. dc_id r = ed \<and> dc_server_seq r = initialServerSeq)
             (\<lambda>r. r\<lparr>dc_server_seq := di_ServerSeq docInfo, dc_updated_at := now env\<rparr>)
             (documents db) = Some docs \<and>
           documents db' = docs"
  using assms
  by (auto simp: StoreChangeInfos_def BulkWrite_def split: option.splits sum.splits if_splits)

lemma find_update_first_key:
  assumes u: "update_first p f rs = Some rs'" and d: "distinct (map k rs)"
    and pk: "\<And>r. p r \<Longrightarrow> k r = v" and fk: "\<And>r. k (f r) = k r"
  shows "\<exists>r. p r \<and> find (\<lambda>r. k r = v) rs = Some r \<and> find (\<lambda>r. k r = v) rs' = Some (f r)"
proof -
  from update_first_Some [OF u] obtain pre r post where
    s: "rs = pre @ r # post" "p r" "rs' = pre @ f r # post"
    by blast
  from s(2) have kr: "k r = v" by (rule pk)
  from d s(1) have "k r \<notin> k ` set pre"
    by simp
  then have "\<forall>x\<in>set pre. k x \<noteq> k r"
    by (metis image_eqI)
  with kr have none: "\<forall>x\<in>set pre. \<not> k x = v"
    by simp
  from none kr have "find (\<lambda>r. k r = v) (pre @ r # post) = Some r"
    by (simp add: find_append_none)
  moreover from none kr fk have "find (\<lambda>r. k r = v) (pre @ f r # post) = Some (f r)"
    by (simp add: find_append_none)
  ultimately show ?thesis
    using s by blast
qed

lemma find_key_distinct:
  assumes "distinct (map k rs)"
  shows "(\<exists>r\<in>set rs. k r = v \<and> g r = w) \<longleftrightarrow> map_option g (find (\<lambda>r. k r = v) rs) = Some w"
proof
  assume "\<exists>r\<in>set rs. k r = v \<and> g r = w"
  then obtain r where r: "r \<in> set rs" "k r = v" "g r = w"
    by blast
  have "\<forall>y\<in>set rs. k y = v \<longrightarrow> y = r"
  proof (intro ballI impI)
    fix y
    assume "y \<in> set rs" and "k y = v"
    with r assms show "y = r"
      by (metis distinct_map inj_on_def)
  qed
  with r(1,2) have "find (\<lambda>r. k r = v) rs = Some r"
    by (intro find_unique)
  with r(3) show "map_option g (find (\<lambda>r. k r = v) rs) = Some w"
    by simp
next
  assume "map_option g (find (\<lambda>r. k r = v) rs) = Some w"
  then obtain r where "find (\<lambda>r. k r = v) rs = Some r" and "g r = w"
    by auto
  with find_Some_D [of "\<lambda>r. k r = v" rs r] show "\<exists>r\<in>set rs. k r = v \<and> g r = w"
    by blast
qed

lemma list_all2_find:
  assumes "list_all2 P xs ys" and "x \<in> set xs"
  shows "\<exists>y\<in>set ys. P x y"
  using assms by (induction rule: list_all2_induct) auto

lemma write_models_keys:
  assumes "write_models env ed cns = Inr models"
  shows "map (\<lambda>m. (cr_doc_id m, cr_server_seq m)) models = map (\<lambda>cn. (ed, ch_ServerSeq cn)) cns"
  using write_models_rows [OF assms]
  by (induction rule: list_all2_induct) (auto simp: change_row_of_def)

lemma StoreChangeInfos_rows:
  assumes res: "StoreChangeInfos env db docInfo initialServerSeq cns = (db', None)"
    and enc: "encodeID env (di_ID docInfo) = Some ed"
    and dist: "distinct (map ch_ServerSeq cns)"
    and cn: "cn \<in> set cns"
  shows "\<exists>ops. EncodeOperations env (ch_Operations cn) = Some ops \<and>
           change_row_of env ed cn ops \<in> set (changes db')"
proof -
  from StoreChangeInfos_success [OF res enc] obtain models where
    w: "write_models env ed cns = Inr models" and
    c: "changes db' = fold apply_model models (changes db)"
    by blast
  from dist have "distinct (map (\<lambda>cn. (ed, ch_ServerSeq cn)) cns)"
    by (simp add: distinct_map inj_on_def)
  then have keys: "distinct (map (\<lambda>m. (cr_doc_id m, cr_server_seq m)) models)"
    by (simp only: write_models_keys [OF w])
  from list_all2_find [OF write_models_rows [OF w] cn] obtain m ops where
    m: "m \<in> set models" "EncodeOperations env (ch_Operations cn) = Some ops"
       "m = change_row_of env ed cn ops"
    by blast
  from fold_apply_model_mem [OF keys m(1)] have "m \<in> set (changes db')"
    by (simp add: c)
  with m show ?thesis
    by blast
qed

text \<open>
  C4. \<open>StoreChangeInfos\<close> returns \<open>ErrConflictOnUpdate\<close> exactly when the compare-and-set
  is reached (the document id and the operations encode, the list of changes is not
  empty, and neither driver call fails) and matches no document, that is, no stored
  document has this id together with server_seq = initialServerSeq; with the document
  ids unique, that is to say the stored server_seq of the document is not
  initialServerSeq. On success the stored server_seq of the document is
  \<open>docInfo.ServerSeq\<close>, and every pushed change (their serverSeqs being distinct) has its
  row, keyed by (doc_id, server_seq), in the changes collection.
\<close>

theorem StoreChangeInfos_conflict:
  "(snd (StoreChangeInfos env db docInfo initialServerSeq cns) = Some ErrConflictOnUpdate \<longleftrightarrow>
      (\<exists>ed. encodeID env (di_ID docInfo) = Some ed \<and> cns \<noteq> [] \<and>
         (\<forall>cn\<in>set cns. EncodeOperations env (ch_Operations cn) \<noteq> None) \<and>
         fault env Changes_BulkWrite = None \<and> fault env Documents_UpdateOne = None \<and>
         \<not> (\<exists>r\<in>set (documents db). dc_id r = ed \<and> dc_server_seq r = initialServerSeq))) \<and>
   (\<forall>ed. distinct (map dc_id (documents db)) \<longrightarrow>
      ((\<exists>r\<in>set (documents db). dc_id r = ed \<and> dc_server_seq r = initialServerSeq) \<longleftrightarrow>
       stored_server_seq db ed = Some initialServerSeq)) \<and>
   (\<forall>ed db'. encodeID env (di_ID docInfo) = Some ed \<and>
      StoreChangeInfos env db docInfo initialServerSeq cns = (db', None) \<longrightarrow>
      (distinct (map dc_id (documents db)) \<longrightarrow>
         stored_server_seq db' ed = Some (di_ServerSeq docInfo)) \<and>
      (distinct (map ch_ServerSeq cns) \<longrightarrow>
         (\<forall>cn\<in>set cns. \<exists>ops. EncodeOperations env (ch_Operations cn) = Some ops \<and>
            change_row_of env ed cn ops \<in> set (changes db'))))"
proof (intro conjI allI impI ballI)
  show "snd (StoreChangeInfos env db docInfo initialServerSeq cns) = Some ErrConflictOnUpdate \<longleftrightarrow>
      (\<exists>ed. encodeID env (di_ID docInfo) = Some ed \<and> cns \<noteq> [] \<and>
         (\<forall>cn\<in>set cns. EncodeOperations env (ch_Operations cn) \<noteq> None) \<and>
         fault env Changes_BulkWrite = None \<and> fault env Documents_UpdateOne = None \<and>
         \<not> (\<exists>r\<in>set (documents db). dc_id r = ed \<and> dc_server_seq r = initialServerSeq))"
    by (rule StoreChangeInfos_conflict_iff)
next
  fix ed
  assume "distinct (map dc_id (documents db))"
  then show "(\<exists>r\<in>set (documents db). dc_id r = ed \<and> dc_server_seq r = initialServerSeq) \<longleftrightarrow>
       stored_server_seq db ed = Some initialServerSeq"
    unfolding stored_server_seq_def by (rule find_key_distinct)
next
  fix ed db'
  assume a: "encodeID env (di_ID docInfo) = Some ed \<and>
      StoreChangeInfos env db docInfo initialServerSeq cns = (db', None)"
    and d: "distinct (map dc_id (documents db))"
  from a StoreChangeInfos_success [of env db docInfo initialServerSeq cns db' ed]
  have u: "update_first (\<lambda>r. dc_id r = ed \<and> dc_server_seq r = initialServerSeq)
             (\<lambda>r. r\<lparr>dc_server_seq := di_ServerSeq docInfo, dc_updated_at := now env\<rparr>)
             (documents db) = Some (documents db')"
    by auto
  from find_update_first_key [OF u d, of ed] obtain r where
    "find (\<lambda>r. dc_id r = ed) (documents db') =
       Some (r\<lparr>dc_server_seq := di_ServerSeq docInfo, dc_updated_at := now env\<rparr>)"
    by auto
  then show "stored_server_seq db' ed = Some (di_ServerSeq docInfo)"
    by (simp add: stored_server_seq_def)
next
  fix ed db' cn
  assume a: "encodeID env (di_ID docInfo) = Some ed \<and>
      StoreChangeInfos env db docInfo initialServerSeq cns = (db', None)"
    and d: "distinct (map ch_ServerSeq cns)" and cn: "cn \<in> set cns"
  from a have res: "StoreChangeInfos env db docInfo initialServerSeq cns = (db', None)"
    and enc: "encodeID env (di_ID docInfo) = Some ed"
    by simp_all
  from res enc d cn
  show "\<exists>ops. EncodeOperations env (ch_Operations cn) = Some ops \<and>
            change_row_of env ed cn ops \<in> set (changes db')"
    by (rule StoreChangeInfos_rows)
qed

theorem StoreChangeInfos_conflict_witness:
  "snd (StoreChangeInfos demo_env demo_store (demo_docInfo 7) 4 [demo_Change 6, demo_Change 7])
     = Some ErrConflictOnUpdate \<and>
   stored_server_seq demo_store (ObjectID demo_doc) = Some 5 \<and>
   snd (StoreChangeInfos demo_env demo_store (demo_docInfo 7) 5 [demo_Change 6, demo_Change 7])
     = None \<and>
   stored_server_seq
     (fst (StoreChangeInfos demo_env demo_store (demo_docInfo 7) 5 [demo_Change 6, demo_Change 7]))
     (ObjectID demo_doc) = Some 7 \<and>
   demo_change 6 \<in> set (changes
     (fst (StoreChangeInfos demo_env demo_store (demo_docInfo 7) 5 [demo_Change 6, demo_Change 7])))"
proof -
  let ?cns = "[demo_Change 6, demo_Change 7]"
  let ?ed = "ObjectID demo_doc"
  note t = StoreChangeInfos_conflict [where env = demo_env and db = demo_store
      and docInfo = "demo_docInfo 7" and cns = ?cns]
  have enc: "encodeID demo_env (di_ID (demo_docInfo 7)) = Some ?ed"
    by (simp add: demo_defs)
  have "\<exists>ed. encodeID demo_env (di_ID (demo_docInfo 7)) = Some ed \<and> ?cns \<noteq> [] \<and>
         (\<forall>cn\<in>set ?cns. EncodeOperations demo_env (ch_Operations cn) \<noteq> None) \<and>
         fault demo_env Changes_BulkWrite = None \<and> fault demo_env Documents_UpdateOne = None \<and>
         \<not> (\<exists>r\<in>set (documents demo_store). dc_id r = ed \<and> dc_server_seq r = 4)"
    by (simp add: demo_defs)
  with t [where initialServerSeq = 4]
  have a: "snd (StoreChangeInfos demo_env demo_store (demo_docInfo 7) 4 ?cns)
      = Some ErrConflictOnUpdate"
    by blast
  have b: "stored_server_seq demo_store ?ed = Some 5"
    by (simp add: stored_server_seq_def demo_store_def)
  have c: "snd (StoreChangeInfos demo_env demo_store (demo_docInfo 7) 5 ?cns) = None"
    using t [where initialServerSeq = 5]
    by (simp add: StoreChangeInfos_def BulkWrite_def demo_defs)
  then obtain db' where
    res: "StoreChangeInfos demo_env demo_store (demo_docInfo 7) 5 ?cns = (db', None)"
    by (cases "StoreChangeInfos demo_env demo_store (demo_docInfo 7) 5 ?cns") auto
  have ids: "distinct (map dc_id (documents demo_store))"
    by (simp add: demo_store_def)
  have seqs: "distinct (map ch_ServerSeq ?cns)"
    by (simp add: demo_Change_def)
  from t [where initialServerSeq = 5] enc res ids
  have d: "stored_server_seq db' ?ed = Some (di_ServerSeq (demo_docInfo 7))"
    by blast
  from t [where initialServerSeq = 5] enc res seqs have "\<forall>cn\<in>set ?cns.
      \<exists>ops. EncodeOperations demo_env (ch_Operations cn) = Some ops \<and>
        change_row_of demo_env ?ed cn ops \<in> set (changes db')"
    by blast
  then have e: "demo_change 6 \<in> set (changes db')"
    by (simp add: change_row_of_def demo_Change_def demo_change_def demo_env_def)
  from a b c d e res show ?thesis
    by (simp add: demo_docInfo_def)
qed

lemma apply_model_new:
  assumes "\<forall>r\<in>set rows. \<not> same_change_key m r"
  shows "apply_model m rows = rows @ [m]"
proof -
  from assms have "update_first (same_change_key m) (set_change_fields m) rows = None"
    by (simp add: update_first_None_iff)
  then show ?thesis
    by (simp add: apply_model_def upsert_one_def)
qed

lemma fold_apply_model_new:
  assumes "distinct (map (\<lambda>m. (cr_doc_id m, cr_server_seq m)) ms)"
    and "\<forall>m\<in>set ms. \<forall>r\<in>set rows. \<not> same_change_key m r"
  shows "fold apply_model ms rows = rows @ ms"
  using assms
proof (induction ms arbitrary: rows)
  case Nil
  then show ?case by simp
next
  case (Cons m ms)
  from Cons.prems(2) have step: "apply_model m rows = rows @ [m]"
    by (intro apply_model_new) simp
  have "\<forall>m'\<in>set ms. \<not> same_change_key m' m"
  proof
    fix m'
    assume "m' \<in> set ms"
    with Cons.prems(1) have "(cr_doc_id m, cr_server_seq m) \<noteq> (cr_doc_id m', cr_server_seq m')"
      by (auto simp: image_iff)
    then show "\<not> same_change_key m' m"
      by (auto simp: same_change_key_def)
  qed
  with Cons.prems(2) have "\<forall>m'\<in>set ms. \<forall>r\<in>set (rows @ [m]). \<not> same_change_key m' r"
    by auto
  moreover from Cons.prems(1) have "distinct (map (\<lambda>m. (cr_doc_id m, cr_server_seq m)) ms)"
    by simp
  ultimately have "fold apply_model ms (rows @ [m]) = (rows @ [m]) @ ms"
    by (rule Cons.IH [rotated])
  with step show ?case
    by simp
qed

lemma StoreChangeInfos_changes:
  assumes "StoreChangeInfos env db docInfo initialServerSeq cns = (db', err)"
    and "encodeID env (di_ID docInfo) = Some ed"
  shows "changes db' = changes db \<or>
         (\<exists>models. write_models env ed cns = Inr models \<and>
            changes db' = fold apply_model models (changes db))"
  using assms
  by (auto simp: StoreChangeInfos_def BulkWrite_def split: option.splits sum.splits if_splits)

text \<open>
  The push keeps the order that the changes response relies on: when the changes of a
  document are stored in ascending serverSeq order and the pushed changes carry
  ascending serverSeqs above every stored one (as the push stage assigns them), the
  document's changes are in ascending serverSeq order after \<open>StoreChangeInfos\<close>, whether
  it succeeds or fails.
\<close>

lemma StoreChangeInfos_keeps_order:
  assumes res: "StoreChangeInfos env db docInfo initialServerSeq cns = (db', err)"
    and enc: "encodeID env (di_ID docInfo) = Some ed"
    and old: "sorted_wrt (<) (map cr_server_seq (filter (\<lambda>r. cr_doc_id r = ed) (changes db)))"
    and new: "sorted_wrt (<) (map ch_ServerSeq cns)"
    and above: "\<forall>r\<in>set (changes db). cr_doc_id r = ed \<longrightarrow>
                  (\<forall>cn\<in>set cns. cr_server_seq r < ch_ServerSeq cn)"
  shows "sorted_wrt (<) (map cr_server_seq (filter (\<lambda>r. cr_doc_id r = ed) (changes db')))"
proof -
  from StoreChangeInfos_changes [OF res enc] consider "changes db' = changes db"
    | models where "write_models env ed cns = Inr models"
        "changes db' = fold apply_model models (changes db)"
    by blast
  then show ?thesis
  proof cases
    case 1
    with old show ?thesis by simp
  next
    case 2
    have keys: "map (\<lambda>m. (cr_doc_id m, cr_server_seq m)) models =
        map (\<lambda>cn. (ed, ch_ServerSeq cn)) cns"
      by (rule write_models_keys [OF 2(1)])
    then have "map fst (map (\<lambda>m. (cr_doc_id m, cr_server_seq m)) models) =
        map fst (map (\<lambda>cn. (ed, ch_ServerSeq cn)) cns)"
      and "map snd (map (\<lambda>m. (cr_doc_id m, cr_server_seq m)) models) =
        map snd (map (\<lambda>cn. (ed, ch_ServerSeq cn)) cns)"
      by simp_all
    then have docs: "map cr_doc_id models = map (\<lambda>cn. ed) cns"
      and seqs: "map cr_server_seq models = map ch_ServerSeq cns"
      by (simp_all add: comp_def)
    have "set (map cr_doc_id models) \<subseteq> {ed}"
      unfolding docs by auto
    then have doc: "\<forall>m\<in>set models. cr_doc_id m = ed"
      by auto
    from new have "distinct (map ch_ServerSeq cns)"
      by (simp add: strict_sorted_iff)
    then have "distinct (map (\<lambda>cn. (ed, ch_ServerSeq cn)) cns)"
      by (simp add: distinct_map inj_on_def)
    then have dist: "distinct (map (\<lambda>m. (cr_doc_id m, cr_server_seq m)) models)"
      by (simp only: keys)
    have fresh: "\<forall>m\<in>set models. \<forall>r\<in>set (changes db). \<not> same_change_key m r"
    proof (intro ballI notI)
      fix m r
      assume m: "m \<in> set models" and r: "r \<in> set (changes db)" and k: "same_change_key m r"
      from m have "cr_server_seq m \<in> set (map cr_server_seq models)"
        by simp
      then obtain cn where cn: "cn \<in> set cns" "cr_server_seq m = ch_ServerSeq cn"
        unfolding seqs by auto
      from k doc m have "cr_doc_id r = ed" "cr_server_seq r = cr_server_seq m"
        by (simp_all add: same_change_key_def)
      with above r cn have "ch_ServerSeq cn < ch_ServerSeq cn"
        by metis
      then show False
        by simp
    qed
    from fold_apply_model_new [OF dist fresh] 2(2)
    have "changes db' = changes db @ models"
      by simp
    with doc have rows: "filter (\<lambda>r. cr_doc_id r = ed) (changes db') =
        filter (\<lambda>r. cr_doc_id r = ed) (changes db) @ models"
      by simp
    have cross: "\<forall>x\<in>set (map cr_server_seq (filter (\<lambda>r. cr_doc_id r = ed) (changes db))).
        \<forall>y\<in>set (map ch_ServerSeq cns). x < y"
    proof (intro ballI)
      fix x y
      assume "x \<in> set (map cr_server_seq (filter (\<lambda>r. cr_doc_id r = ed) (changes db)))"
        and "y \<in> set (map ch_ServerSeq cns)"
      then obtain r cn where "r \<in> set (changes db)" "cr_doc_id r = ed" "x = cr_server_seq r"
        "cn \<in> set cns" "y = ch_ServerSeq cn"
        by auto
      with above show "x < y"
        by blast
    qed
    from old new cross show ?thesis
      unfolding rows by (simp only: map_append sorted_wrt_append seqs simp_thms)
  qed
qed

end
